theory Spec2Isabelle
  imports Main "HOL-Library.Sublist"
begin

section \<open>Configuration (relay.ts, lines 105-121 and 181)\<close>

text \<open>
  The thresholds are read from the environment with \<open>parseInt\<close>; the model takes them as
  integers. \<open>supabase\<close> says whether the durable store client is non-null.
\<close>

record config =
  SESSION_MAX_MESSAGES :: int
  SESSION_IDLE_TIMEOUT_MIN :: int
  supabase :: bool

definition TRANSCRIPT_MAX_BYTES :: nat where
  "TRANSCRIPT_MAX_BYTES = 50 * 1024"

section \<open>Session state (relay.ts, lines 131-151)\<close>

text \<open>
  Timestamps are ISO strings in the source, written by \<open>new Date().toISOString()\<close> and read
  back by \<open>new Date(s).getTime()\<close>; the model keeps the millisecond value. \<open>startedAt\<close> is
  tested for falsiness by the source, so the empty string is \<open>None\<close>. A JavaScript string
  is a sequence of UTF-16 code units and \<open>length\<close> counts them: one \<open>char\<close> of the model
  stands for one code unit.
\<close>

record SessionState =
  sessionId :: "string option"
  lastActivity :: int
  messageCount :: int
  transcript :: string
  chatId :: "string option"
  userIds :: "string list"
  startedAt :: "int option"

definition newSessionState :: "int \<Rightarrow> SessionState" where
  "newSessionState now =
     \<lparr> sessionId = None, lastActivity = now, messageCount = 0, transcript = [],
       chatId = None, userIds = [], startedAt = Some now \<rparr>"

datatype close_reason = Idle | Limit | Manual

text \<open>
  The variables captured by the background closure that \<open>closeSession\<close> spawns, and the
  requests that closure sends when it runs.
\<close>

record ArchiveTask =
  task_snapshot :: SessionState
  task_count :: int
  task_reason :: close_reason

datatype request =
    InsertArchived "string option" "string option" "string list" string int close_reason
  | SummaryRequest string
  | UpdateSummary string string

text \<open>
  The module state: the live \<open>session\<close>, the contents of session.json, the
  "Closing session" lines written to the console, and the background tasks spawned so far.
\<close>

record World =
  session :: SessionState
  saved :: "SessionState option"
  closeLog :: "(close_reason \<times> int) list"
  spawned :: "ArchiveTask list"

definition saveSession :: "SessionState \<Rightarrow> World \<Rightarrow> World" where
  "saveSession state w = w\<lparr> saved := Some state \<rparr>"

section \<open>String primitives of the source\<close>

definition nl :: char where
  "nl = CHR 0x0A"

definition sep :: string where
  "sep = [nl, nl]"

text \<open>
  \<open>find_from pat xs i\<close> scans \<open>xs\<close>, whose first element has index \<open>i\<close> in the whole
  string, for the first occurrence of \<open>pat\<close>; -1 when there is none.
\<close>

fun find_from :: "string \<Rightarrow> string \<Rightarrow> nat \<Rightarrow> int" where
  "find_from pat [] i = (if pat = [] then int i else -1)"
| "find_from pat (c # cs) i = (if prefix pat (c # cs) then int i else find_from pat cs (Suc i))"

text \<open>\<open>String.prototype.indexOf(pat, from)\<close>: the start is clamped to \<open>[0, length]\<close>.\<close>

definition indexOf :: "string \<Rightarrow> string \<Rightarrow> int \<Rightarrow> int" where
  "indexOf s pat from =
     (let k = nat (max 0 (min from (int (length s)))) in find_from pat (drop k s) k)"

text \<open>\<open>String.prototype.substring(start)\<close>: a negative start is 0, one past the end is the end.\<close>

definition substring :: "string \<Rightarrow> int \<Rightarrow> string" where
  "substring s start = drop (nat (max 0 start)) s"

section \<open>Session lifecycle (relay.ts, lines 183-284)\<close>

definition shouldCloseSession :: "config \<Rightarrow> int \<Rightarrow> SessionState \<Rightarrow> close_reason option" where
  "shouldCloseSession cfg now s =
     (if messageCount s \<ge> SESSION_MAX_MESSAGES cfg then Some Limit
      else let idleMs = now - lastActivity s in
        if messageCount s > 0 \<and> idleMs > SESSION_IDLE_TIMEOUT_MIN cfg * 60 * 1000 then Some Idle
        else None)"

definition closeSession :: "config \<Rightarrow> int \<Rightarrow> close_reason \<Rightarrow> World \<Rightarrow> World \<times> int" where
  "closeSession cfg now reason w =
     (let snapshot = session w;
          cnt = messageCount snapshot;
          w1 = w\<lparr> closeLog := closeLog w @ [(reason, cnt)] \<rparr>;
          w2 = saveSession (newSessionState now) (w1\<lparr> session := newSessionState now \<rparr>);
          w3 = (if supabase cfg \<and> length (transcript snapshot) > 0
                then w2\<lparr> spawned := spawned w2 @
                       [\<lparr> task_snapshot = snapshot, task_count = cnt, task_reason = reason \<rparr>] \<rparr>
                else w2)
      in (w3, cnt))"

text \<open>
  The body of the spawned closure (lines 201-236). \<open>inserted\<close> is the outcome of the insert:
  the id of the new row, or \<open>None\<close> when the store reports an error; \<open>summary\<close> is what the
  internal assistant call returns.
\<close>

definition summaryPrompt :: "string \<Rightarrow> string" where
  "summaryPrompt t =
     ''Summarize this conversation transcript in 2-3 sentences. Focus on decisions made, tasks completed, and open items. Be concise.''
       @ sep @ take 8000 t"

definition runArchiveTask :: "string option \<Rightarrow> string \<Rightarrow> ArchiveTask \<Rightarrow> request list" where
  "runArchiveTask inserted summary task =
     (let snapshot = task_snapshot task in
      InsertArchived (sessionId snapshot) (chatId snapshot) (userIds snapshot)
          (transcript snapshot) (task_count task) (task_reason task)
      # (case inserted of
           None \<Rightarrow> []
         | Some rowId \<Rightarrow> [SummaryRequest (summaryPrompt (transcript snapshot)),
                          UpdateSummary rowId summary]))"

text \<open>
  Lines 266-269 and 278-281 are the same statement; \<open>truncateTranscript\<close> is that statement
  as a function of the transcript after the append.
\<close>

definition truncateTranscript :: "string \<Rightarrow> string" where
  "truncateTranscript t =
     (if length t > TRANSCRIPT_MAX_BYTES then
        let cutPoint = indexOf t sep (int (length t) - int TRANSCRIPT_MAX_BYTES) in
        if cutPoint > -1 then substring t (cutPoint + 2)
        else substring t (int (length t) - int TRANSCRIPT_MAX_BYTES)
      else t)"

text \<open>One reading of the clock, \<open>now\<close>, stands for the \<open>Date\<close> calls of one invocation.\<close>

definition trackMessage ::
  "config \<Rightarrow> int \<Rightarrow> string \<Rightarrow> string \<Rightarrow> string \<Rightarrow> string \<Rightarrow> World \<Rightarrow> World" where
  "trackMessage cfg now text userName userId chat w =
     (let w1 = (case shouldCloseSession cfg now (session w) of
                  Some closeReason \<Rightarrow> fst (closeSession cfg now closeReason w)
                | None \<Rightarrow> w);
          s = session w1;
          s1 = s\<lparr> messageCount := messageCount s + 1, lastActivity := now, chatId := Some chat \<rparr>;
          s2 = (if userId \<in> set (userIds s1) then s1 else s1\<lparr> userIds := userIds s1 @ [userId] \<rparr>);
          s3 = (if startedAt s2 = None \<or> messageCount s2 = 1
                then s2\<lparr> startedAt := Some now \<rparr> else s2);
          s4 = s3\<lparr> transcript := truncateTranscript (transcript s3 @ userName @ '': '' @ text @ sep) \<rparr>
      in saveSession s4 (w1\<lparr> session := s4 \<rparr>))"

definition trackResponse :: "string \<Rightarrow> World \<Rightarrow> World" where
  "trackResponse response w =
     (let s = session w;
          s1 = s\<lparr> transcript := truncateTranscript (transcript s @ ''Assistant: '' @ response @ sep) \<rparr>
      in saveSession s1 (w\<lparr> session := s1 \<rparr>))"

text \<open>
  The session-id assignment of \<open>callClaude\<close> (lines 577-581): a truthy \<open>session_id\<close> of a
  call that is not internal is stored, with the activity time.
\<close>

definition assignSessionId :: "int \<Rightarrow> bool \<Rightarrow> string option \<Rightarrow> World \<Rightarrow> World" where
  "assignSessionId now internal session_id w =
     (case session_id of
        None \<Rightarrow> w
      | Some sid \<Rightarrow>
          if sid \<noteq> [] \<and> \<not> internal then
            let s1 = (session w)\<lparr> sessionId := Some sid, lastActivity := now \<rparr>
            in saveSession s1 (w\<lparr> session := s1 \<rparr>)
          else w)"

section \<open>Suspension inside a tracked message (relay.ts, lines 190-272)\<close>

text \<open>
  \<open>trackMessage\<close> runs in one piece when no close is due: its only \<open>await\<close> is the last
  statement. When a close is due it awaits \<open>closeSession\<close>, which runs up to its own
  \<open>await saveSession\<close> (line 197) and is suspended there, with the session already
  replaced; other handlers run until it resumes. \<open>closeSession_begin\<close> is \<open>closeSession\<close>
  up to that point and returns the local variables that the rest needs,
  \<open>closeSession_finish\<close> is the rest (lines 199-239), and \<open>trackMessage_record\<close> is what
  \<open>trackMessage\<close> does after the close (lines 249-271).
\<close>

definition closeSession_begin :: "int \<Rightarrow> close_reason \<Rightarrow> World \<Rightarrow> World \<times> ArchiveTask" where
  "closeSession_begin now reason w =
     (let snapshot = session w;
          cnt = messageCount snapshot;
          w1 = w\<lparr> closeLog := closeLog w @ [(reason, cnt)] \<rparr>;
          w2 = saveSession (newSessionState now) (w1\<lparr> session := newSessionState now \<rparr>)
      in (w2, \<lparr> task_snapshot = snapshot, task_count = cnt, task_reason = reason \<rparr>))"

definition closeSession_finish :: "config \<Rightarrow> ArchiveTask \<Rightarrow> World \<Rightarrow> World \<times> int" where
  "closeSession_finish cfg task w =
     ((if supabase cfg \<and> length (transcript (task_snapshot task)) > 0
       then w\<lparr> spawned := spawned w @ [task] \<rparr> else w),
      task_count task)"

definition trackMessage_record :: "int \<Rightarrow> string \<Rightarrow> string \<Rightarrow> string \<Rightarrow> string \<Rightarrow> World \<Rightarrow> World" where
  "trackMessage_record now text userName userId chat w =
     (let s = session w;
          s1 = s\<lparr> messageCount := messageCount s + 1, lastActivity := now, chatId := Some chat \<rparr>;
          s2 = (if userId \<in> set (userIds s1) then s1 else s1\<lparr> userIds := userIds s1 @ [userId] \<rparr>);
          s3 = (if startedAt s2 = None \<or> messageCount s2 = 1
                then s2\<lparr> startedAt := Some now \<rparr> else s2);
          s4 = s3\<lparr> transcript := truncateTranscript (transcript s3 @ userName @ '': '' @ text @ sep) \<rparr>
      in saveSession s4 (w\<lparr> session := s4 \<rparr>))"

section \<open>Start-up (relay.ts, lines 157-175)\<close>

text \<open>
  \<open>disk\<close> is what session.json holds: \<open>None\<close> when the file is missing or does not
  parse. A file written by \<open>saveSession\<close> carries every field, so the defaults that
  \<open>loadSession\<close> merges in are all overridden.
\<close>

definition loadSession :: "int \<Rightarrow> SessionState option \<Rightarrow> SessionState" where
  "loadSession now disk = (case disk of None \<Rightarrow> newSessionState now | Some parsed \<Rightarrow> parsed)"

definition initialWorld :: "int \<Rightarrow> SessionState option \<Rightarrow> World" where
  "initialWorld now disk =
     \<lparr> session = loadSession now disk, saved = disk, closeLog = [], spawned = [] \<rparr>"

text \<open>A run of the message handlers' \<open>trackMessage\<close> calls, one per inbound message.\<close>

fun handleAll :: "config \<Rightarrow> (int \<times> string \<times> string \<times> string \<times> string) list \<Rightarrow> World \<Rightarrow> World" where
  "handleAll cfg [] w = w"
| "handleAll cfg ((now, text, userName, userId, chat) # rest) w =
     handleAll cfg rest (trackMessage cfg now text userName userId chat w)"

text \<open>
  \<open>tracked cfg es w\<close>: the world \<open>w\<close> is reached from an empty state directory by a run
  in which the entries \<open>es\<close> were appended to the transcript, in this order.
\<close>

inductive tracked :: "config \<Rightarrow> string list \<Rightarrow> World \<Rightarrow> bool" for cfg :: config where
  start: "tracked cfg [] (initialWorld now None)"
| message: "tracked cfg es w \<Longrightarrow>
     tracked cfg (es @ [userName @ '': '' @ text]) (trackMessage cfg now text userName userId chat w)"
| response: "tracked cfg es w \<Longrightarrow>
     tracked cfg (es @ [''Assistant: '' @ response]) (trackResponse response w)"
| close: "tracked cfg es w \<Longrightarrow> tracked cfg es (fst (closeSession cfg now reason w))"
| assign: "tracked cfg es w \<Longrightarrow> tracked cfg es (assignSessionId now internal session_id w)"

section \<open>Invoking the assistant (relay.ts, lines 26-69 and 471-598)\<close>

text \<open>
  The constants of the invocation. \<open>allowedTools\<close> is \<open>getUserRole(userId)?.allowedTools\<close>
  over the table \<open>USER_ROLES\<close>.
\<close>

record claude_config =
  CLAUDE_PATH :: string
  CLAUDE_WORKING_DIR :: string
  AUTONOMOUS_MODE :: bool

definition CLAUDE_TIMEOUT_MS :: nat where
  "CLAUDE_TIMEOUT_MS = 5 * 60 * 1000"

definition allowedTools :: "string option \<Rightarrow> string option" where
  "allowedTools user =
     (case user of
        None \<Rightarrow> None
      | Some u \<Rightarrow>
          if u = ''8493500703'' then Some ''Bash,Edit,Read,Glob,Grep,Write''
          else if u = ''8253689321'' then Some ''Bash,Edit,Read,Glob,Grep''
          else None)"

record claude_options =
  opt_resume :: bool
  opt_userId :: "string option"
  opt_internal :: bool

record AuditLogEntry =
  audit_timestamp :: int
  audit_prompt :: string
  audit_sessionId :: "string option"
  audit_workingDir :: string
  audit_autonomousMode :: bool

text \<open>
  What the environment does during one invocation is an input of the model:
  \<^item> \<open>spawn_pid\<close>: the process id, or \<open>None\<close> when \<open>spawn\<close> throws;
  \<^item> \<open>register_ok\<close>, \<open>unregister_ok\<close>: whether the write of children.json in
    \<open>registerChildPid\<close> and in \<open>unregisterChildPid\<close> succeeds;
  \<^item> \<open>race\<close>: how \<open>Promise.race\<close> settles: the standard output arrives first, or
    the timer of \<open>CLAUDE_TIMEOUT_MS\<close> fires first, or reading the output fails;
  \<^item> \<open>alive_after_grace\<close>: whether the probe \<open>process.kill(pid, 0)\<close> finds the process
    five seconds after the timeout;
  \<^item> \<open>stderr_text\<close>, \<open>exit_code\<close>: what the process wrote to standard error and its
    exit status;
  \<^item> \<open>json\<close>: \<open>ParseFails\<close> when \<open>JSON.parse\<close> or the reading of a field throws,
    else the fields \<open>session_id\<close> and \<open>result\<close> (\<open>None\<close> when absent);
  \<^item> \<open>save_ok\<close>: whether the \<open>saveSession\<close> of line 580 succeeds.
  A thrown error is the value \<open>Fault\<close>. The session is read and written as it is at the
  call; handlers that run during the awaits are left out, and so are failures of reading
  standard error and the exit status.
\<close>

datatype fault = Fault

datatype race_outcome = StdoutText string | TimedOut | ReadFails

datatype parse_outcome = ParseFails | Parsed "string option" "string option"

record outcomes =
  spawn_pid :: "nat option"
  register_ok :: bool
  race :: race_outcome
  alive_after_grace :: bool
  stderr_text :: string
  exit_code :: nat
  json :: parse_outcome
  save_ok :: bool
  unregister_ok :: bool

text \<open>
  What an invocation leaves: the reply, the module state, the contents of children.json,
  the audit entry, the arguments given to \<open>spawn\<close>, and the signals and probes sent to the
  process, each with its time in milliseconds after the timer was set.
\<close>

datatype signal = SIGTERM | SIGKILL

datatype proc_event = Kill nat signal | Probe nat

record invocation =
  reply :: string
  world_after :: World
  children_after :: "nat list"
  audited :: AuditLogEntry
  launched :: "string list"
  signals :: "(nat \<times> proc_event) list"

definition timeout_reply :: string where
  "timeout_reply = ''Claude timed out after 5 minutes. Please try again.''"

definition spawn_error_reply :: string where
  "spawn_error_reply = ''Error: Could not run Claude CLI''"

text \<open>
  The decimal digits of a number, and \<open>String.prototype.trim\<close> over the white space that
  fits in one \<open>char\<close>.
\<close>

fun dec :: "nat \<Rightarrow> string" where
  "dec n = (if n < 10 then [char_of (48 + n)] else dec (n div 10) @ [char_of (48 + n mod 10)])"

definition is_space :: "char \<Rightarrow> bool" where
  "is_space c = (c \<in> set [CHR 0x09, CHR 0x0A, CHR 0x0B, CHR 0x0C, CHR 0x0D, CHR 0x20, CHR 0xA0])"

definition js_trim :: "string \<Rightarrow> string" where
  "js_trim s = rev (dropWhile is_space (rev (dropWhile is_space s)))"

text \<open>Lines 477-493: the argument vector.\<close>

definition buildArgs :: "claude_config \<Rightarrow> string \<Rightarrow> claude_options \<Rightarrow> SessionState \<Rightarrow> string list" where
  "buildArgs cc prompt opts s =
     [CLAUDE_PATH cc, ''-p'', prompt]
     @ (case sessionId s of
          None \<Rightarrow> []
        | Some sid \<Rightarrow>
            if opt_resume opts \<and> \<not> opt_internal opts \<and> sid \<noteq> [] then [''--resume'', sid] else [])
     @ [''--output-format'', ''json'']
     @ (if AUTONOMOUS_MODE cc
        then [''--permission-mode'', ''dontAsk'', ''--add-dir'', CLAUDE_WORKING_DIR cc,
              ''--allowed-tools'',
              (case allowedTools (opt_userId opts) of
                 Some tools \<Rightarrow> if tools \<noteq> [] then tools else ''Bash,Edit,Read,Glob,Grep,Write''
               | None \<Rightarrow> ''Bash,Edit,Read,Glob,Grep,Write'')]
        else [])"

text \<open>
  Lines 526-590, the inner \<open>try\<close> block: what it returns or throws, the module state, and
  the signals. On a timeout the timer's callback sends the default signal at once and sets
  the grace timer, whose callback probes the process and kills it if the probe succeeds;
  the rejected race is caught and answered with the timeout reply.
\<close>

definition callClaude_inner ::
  "int \<Rightarrow> claude_options \<Rightarrow> outcomes \<Rightarrow> nat \<Rightarrow> World
     \<Rightarrow> (fault + string) \<times> World \<times> (nat \<times> proc_event) list" where
  "callClaude_inner now opts env pid w =
     (case race env of
        TimedOut \<Rightarrow>
          (Inr timeout_reply, w,
           [(CLAUDE_TIMEOUT_MS, Kill pid SIGTERM), (CLAUDE_TIMEOUT_MS + 5000, Probe pid)]
           @ (if alive_after_grace env then [(CLAUDE_TIMEOUT_MS + 5000, Kill pid SIGKILL)] else []))
      | ReadFails \<Rightarrow> (Inl Fault, w, [])
      | StdoutText output \<Rightarrow>
          if exit_code env \<noteq> 0 then
            (Inr (''Error: '' @ (if stderr_text env \<noteq> [] then stderr_text env
                                else ''Claude exited with code '' @ dec (exit_code env))), w, [])
          else
            (case json env of
               ParseFails \<Rightarrow> (Inr (js_trim output), w, [])
             | Parsed session_id result \<Rightarrow>
                 let answer = (case result of
                                 None \<Rightarrow> ''No response''
                               | Some r \<Rightarrow> if r \<noteq> [] then r else ''No response'')
                 in (case session_id of
                       None \<Rightarrow> (Inr answer, w, [])
                     | Some sid \<Rightarrow>
                         if sid \<noteq> [] \<and> \<not> opt_internal opts then
                           let s1 = (session w)\<lparr> sessionId := Some sid, lastActivity := now \<rparr>
                           in if save_ok env
                              then (Inr answer, saveSession s1 (w\<lparr> session := s1 \<rparr>), [])
                              else (Inr (js_trim output), w\<lparr> session := s1 \<rparr>, [])
                         else (Inr answer, w, []))))"

text \<open>
  The whole function: the audit entry, \<open>spawn\<close> and \<open>registerChildPid\<close> inside the outer
  \<open>try\<close>, the inner block, the \<open>finally\<close> with \<open>unregisterChildPid\<close>, whose error
  replaces whatever the inner block returned, and the outer \<open>catch\<close>.
\<close>

definition callClaude ::
  "claude_config \<Rightarrow> int \<Rightarrow> outcomes \<Rightarrow> string \<Rightarrow> claude_options \<Rightarrow> World \<Rightarrow> nat list
     \<Rightarrow> invocation" where
  "callClaude cc now env prompt opts w children =
     (let args = buildArgs cc prompt opts (session w);
          entry = \<lparr> audit_timestamp = now, audit_prompt = take 200 prompt,
                    audit_sessionId = sessionId (session w),
                    audit_workingDir = CLAUDE_WORKING_DIR cc,
                    audit_autonomousMode = AUTONOMOUS_MODE cc \<rparr>
      in case spawn_pid env of
           None \<Rightarrow>
             \<lparr> reply = spawn_error_reply, world_after = w, children_after = children,
               audited = entry, launched = args, signals = [] \<rparr>
         | Some pid \<Rightarrow>
             if \<not> register_ok env then
               \<lparr> reply = spawn_error_reply, world_after = w, children_after = children,
                 audited = entry, launched = args, signals = [] \<rparr>
             else
               (case callClaude_inner now opts env pid w of
                  (returned, w1, sent) \<Rightarrow>
                    let registered = children @ [pid];
                        after_finally = (if unregister_ok env then returned else Inl Fault)
                    in \<lparr> reply = (case after_finally of
                                     Inl error \<Rightarrow> spawn_error_reply
                                   | Inr answer \<Rightarrow> answer),
                         world_after = w1,
                         children_after = (if unregister_ok env
                                           then filter (\<lambda>p. p \<noteq> pid) registered
                                           else registered),
                         audited = entry, launched = args, signals = sent \<rparr>))"

section \<open>Per-user concurrency (relay.ts, lines 625-637)\<close>

text \<open>
  \<open>userId\<close> is \<open>string | undefined\<close> in the source; \<open>None\<close> is \<open>undefined\<close>. Both
  \<open>undefined\<close> and the empty string are falsy.
\<close>

definition isUserBusy :: "string option \<Rightarrow> (string \<rightharpoonup> bool) \<Rightarrow> bool" where
  "isUserBusy userId activeRequests =
     (case userId of None \<Rightarrow> False | Some u \<Rightarrow> u \<noteq> [] \<and> activeRequests u = Some True)"

definition markUserBusy :: "string option \<Rightarrow> (string \<rightharpoonup> bool) \<Rightarrow> (string \<rightharpoonup> bool)" where
  "markUserBusy userId activeRequests =
     (case userId of
        None \<Rightarrow> activeRequests
      | Some u \<Rightarrow> if u \<noteq> [] then activeRequests(u \<mapsto> True) else activeRequests)"

definition markUserFree :: "string option \<Rightarrow> (string \<rightharpoonup> bool) \<Rightarrow> (string \<rightharpoonup> bool)" where
  "markUserFree userId activeRequests =
     (case userId of
        None \<Rightarrow> activeRequests
      | Some u \<Rightarrow> if u \<noteq> [] then activeRequests(u := None) else activeRequests)"

text \<open>
  The gate as the three message handlers run it (lines 688-693, 751-756, 817-822): a busy
  user is answered and turned away, any other is marked busy; \<open>release\<close> is the
  \<open>markUserFree\<close> of their \<open>finally\<close> blocks.
\<close>

definition tryAcquire :: "string option \<Rightarrow> (string \<rightharpoonup> bool) \<Rightarrow> bool \<times> (string \<rightharpoonup> bool)" where
  "tryAcquire userId activeRequests =
     (if isUserBusy userId activeRequests then (False, activeRequests)
      else (True, markUserBusy userId activeRequests))"

definition release :: "string option \<Rightarrow> (string \<rightharpoonup> bool) \<Rightarrow> (string \<rightharpoonup> bool)" where
  "release userId activeRequests = markUserFree userId activeRequests"

section \<open>Transcript entries\<close>

text \<open>
  An entry is the text \<open>name: content\<close> that an append puts in front of the separator.
  \<open>render\<close> is the transcript made of complete entries. \<open>entry_ok\<close> holds of an entry
  in which the separator cannot be found anywhere but after it: no blank line inside, no
  newline at either end.
\<close>

fun has_blank_line :: "string \<Rightarrow> bool" where
  "has_blank_line (a # b # cs) = ((a = nl \<and> b = nl) \<or> has_blank_line (b # cs))"
| "has_blank_line cs = False"

definition entry_ok :: "string \<Rightarrow> bool" where
  "entry_ok e = (e \<noteq> [] \<and> hd e \<noteq> nl \<and> last e \<noteq> nl \<and> \<not> has_blank_line e)"

definition render :: "string list \<Rightarrow> string" where
  "render es = concat (map (\<lambda>e. e @ sep) es)"

section \<open>Example configurations and states\<close>

definition cfg30 :: config where
  "cfg30 = \<lparr> SESSION_MAX_MESSAGES = 30, SESSION_IDLE_TIMEOUT_MIN = 30, supabase = False \<rparr>"

definition cfg_store :: config where
  "cfg_store = \<lparr> SESSION_MAX_MESSAGES = 30, SESSION_IDLE_TIMEOUT_MIN = 30, supabase = True \<rparr>"

definition hi :: "int \<times> string \<times> string \<times> string \<times> string" where
  "hi = (0, ''hi'', ''User'', ''1'', ''c'')"

definition w_one :: World where
  "w_one = trackMessage cfg30 0 ''hi'' ''User'' ''1'' ''c'' (initialWorld 0 None)"

definition long_reply :: string where
  "long_reply = replicate 51180 (CHR ''a'')"

definition w_long :: World where
  "w_long = trackMessage cfg30 0 ''hi'' ''User'' ''1'' ''c'' (trackResponse long_reply (initialWorld 0 None))"

definition cfg_one :: config where
  "cfg_one = \<lparr> SESSION_MAX_MESSAGES = 1, SESSION_IDLE_TIMEOUT_MIN = 30, supabase = False \<rparr>"

definition w_first :: World where
  "w_first = trackMessage cfg_one 0 ''one'' ''Mot'' ''8493500703'' ''7'' (initialWorld 0 None)"

definition w_suspended :: World where
  "w_suspended = fst (closeSession_begin 1000 Limit w_first)"

definition w_other :: World where
  "w_other = trackMessage cfg_one 1001 ''two'' ''Rocky'' ''8253689321'' ''7'' w_suspended"

definition w_resumed :: World where
  "w_resumed = trackMessage_record 1002 ''three'' ''Mot'' ''8493500703'' ''7''
     (fst (closeSession_finish cfg_one (snd (closeSession_begin 1000 Limit w_first)) w_other))"

definition cc_default :: claude_config where
  "cc_default = \<lparr> CLAUDE_PATH = ''claude'', CLAUDE_WORKING_DIR = ''/work'', AUTONOMOUS_MODE = False \<rparr>"

definition opts_user :: claude_options where
  "opts_user = \<lparr> opt_resume = True, opt_userId = Some ''8493500703'', opt_internal = False \<rparr>"

definition env_hang :: outcomes where
  "env_hang = \<lparr> spawn_pid = Some 4242, register_ok = True, race = TimedOut,
                 alive_after_grace = True, stderr_text = [], exit_code = 0, json = ParseFails,
                 save_ok = True, unregister_ok = False \<rparr>"

definition newline_reply :: string where
  "newline_reply = replicate 51200 (CHR ''a'') @ [nl]"

section \<open>Searching for the separator\<close>

lemma find_from_range:
  "int i \<le> find_from pat (ys @ pat) i \<and> find_from pat (ys @ pat) i \<le> int i + int (length ys)"
proof (induction ys arbitrary: i)
  case Nil
  show ?case by (cases pat) simp_all
next
  case (Cons y ys)
  from Cons.IH [of "Suc i"] show ?case by simp
qed

lemma find_from_first:
  "n \<le> length xs \<Longrightarrow> prefix pat (drop n xs) \<Longrightarrow> \<forall>j<n. \<not> prefix pat (drop j xs) \<Longrightarrow>
     find_from pat xs i = int (i + n)"
proof (induction n arbitrary: xs i)
  case 0
  then show ?case by (cases xs) simp_all
next
  case (Suc n)
  from Suc.prems(1) obtain c cs where xs: "xs = c # cs" by (cases xs) auto
  from Suc.prems(3) have "\<not> prefix pat (drop 0 xs)" by blast
  then have np: "\<not> prefix pat (c # cs)" by (simp add: xs)
  have a: "n \<le> length cs" using Suc.prems(1) xs by simp
  have b: "prefix pat (drop n cs)" using Suc.prems(2) xs by simp
  have c: "\<forall>j<n. \<not> prefix pat (drop j cs)"
  proof (intro allI impI)
    fix j assume "j < n"
    then have "\<not> prefix pat (drop (Suc j) xs)" using Suc.prems(3) by simp
    then show "\<not> prefix pat (drop j cs)" by (simp add: xs)
  qed
  have "find_from pat cs (Suc i) = int (Suc i + n)" using a b c by (rule Suc.IH)
  with np show ?case by (simp add: xs)
qed

lemma render_simps [simp]:
  "render [] = []" "render (e # es) = e @ sep @ render es" "render (xs @ ys) = render xs @ render ys"
  by (simp_all add: render_def)

lemma has_blank_line_tl: "\<not> has_blank_line (c # u) \<Longrightarrow> \<not> has_blank_line u"
  by (cases u) auto

lemma has_blank_line_drop: "\<not> has_blank_line u \<Longrightarrow> \<not> has_blank_line (drop k u)"
proof (induction k arbitrary: u)
  case 0
  then show ?case by simp
next
  case (Suc k)
  show ?case
  proof (cases u)
    case Nil
    then show ?thesis by simp
  next
    case (Cons c u')
    from Suc.prems have "\<not> has_blank_line u'" unfolding Cons by (rule has_blank_line_tl)
    then have "\<not> has_blank_line (drop k u')" by (rule Suc.IH)
    with Cons show ?thesis by simp
  qed
qed

lemma find_from_clean:
  "\<not> has_blank_line u \<Longrightarrow> (u \<noteq> [] \<longrightarrow> last u \<noteq> nl) \<Longrightarrow>
     find_from sep (u @ sep @ r) i = int (i + length u)"
proof (induction u arbitrary: i)
  case Nil
  show ?case by (simp add: sep_def)
next
  case (Cons c u)
  have np: "\<not> prefix sep ((c # u) @ sep @ r)"
  proof (cases u)
    case Nil
    from Cons.prems(2) have "c \<noteq> nl" unfolding Nil by simp
    then have "nl \<noteq> c" by blast
    then show ?thesis unfolding Nil by (simp add: sep_def)
  next
    case (Cons d u')
    from Cons.prems(1) have "\<not> (c = nl \<and> d = nl)" unfolding Cons by simp
    then have "\<not> (nl = c \<and> nl = d)" by blast
    then show ?thesis unfolding Cons by (simp add: sep_def)
  qed
  have a: "\<not> has_blank_line u" using Cons.prems(1) by (rule has_blank_line_tl)
  have b: "u \<noteq> [] \<longrightarrow> last u \<noteq> nl" using Cons.prems(2) by (cases u) simp_all
  have "find_from sep (u @ sep @ r) (Suc i) = int (Suc i + length u)"
    using a b by (rule Cons.IH)
  with np show ?case by simp
qed

lemma no_newline_no_blank_line: "nl \<notin> set u \<Longrightarrow> \<not> has_blank_line u"
  by (induction u rule: has_blank_line.induct) auto

lemma has_blank_line_snoc:
  "v \<noteq> [] \<Longrightarrow> \<not> has_blank_line v \<Longrightarrow> last v \<noteq> nl \<Longrightarrow> \<not> has_blank_line (v @ [nl])"
proof (induction v)
  case Nil
  then show ?case by simp
next
  case (Cons c u)
  show ?case
  proof (cases u)
    case Nil
    with Cons.prems show ?thesis by simp
  next
    case (Cons d u')
    have a: "u \<noteq> []" by (simp add: Cons)
    have b: "\<not> has_blank_line u" using Cons.prems(2) by (rule has_blank_line_tl)
    have c: "last u \<noteq> nl" using Cons.prems(3) a by simp
    have "\<not> has_blank_line (u @ [nl])" using a b c by (rule Cons.IH)
    moreover have "\<not> (c = nl \<and> d = nl)" using Cons.prems(2) unfolding Cons by simp
    ultimately show ?thesis unfolding Cons by simp
  qed
qed

lemma find_from_entries:
  "\<forall>e\<in>set es. entry_ok e \<Longrightarrow> k + 2 \<le> length (render es) \<Longrightarrow>
     \<exists>j c. j < length es \<and> length (render (take (Suc j) es)) = c + 2 \<and> k \<le> c
        \<and> find_from sep (drop k (render es)) i = int (i + (c - k))"
proof (induction es arbitrary: k i)
  case Nil
  then show ?case by simp
next
  case (Cons e es)
  have ok: "entry_ok e" and oks: "\<forall>e\<in>set es. entry_ok e" using Cons.prems(1) by simp_all
  have seplen: "length sep = 2" by (simp add: sep_def)
  consider (inside) "k \<le> length e" | (mid) "k = length e + 1" | (after) "length e + 2 \<le> k"
    by linarith
  then show ?case
  proof cases
    case inside
    have nb: "\<not> has_blank_line (drop k e)"
      using ok by (simp add: entry_ok_def has_blank_line_drop)
    have lst: "drop k e \<noteq> [] \<longrightarrow> last (drop k e) \<noteq> nl"
      using ok by (simp add: entry_ok_def)
    have "find_from sep (drop k e @ sep @ render es) i = int (i + length (drop k e))"
      using nb lst by (rule find_from_clean)
    then have "find_from sep (drop k (render (e # es))) i = int (i + (length e - k))"
      using inside by simp
    moreover have "length (render (take (Suc 0) (e # es))) = length e + 2"
      by (simp add: seplen)
    ultimately show ?thesis using inside by (intro exI [of _ 0] exI [of _ "length e"]) simp
  next
    case mid
    from Cons.prems(2) mid have nonempty: "render es \<noteq> []" by (auto simp add: seplen)
    then obtain e' es' where es: "es = e' # es'" by (cases es) auto
    have ok': "entry_ok e'" using oks es by simp
    have hd': "\<not> prefix sep (nl # render es)"
      using ok' es by (cases e') (auto simp add: entry_ok_def sep_def)
    have dr: "drop k (render (e # es)) = nl # render es"
      using mid by (simp add: sep_def)
    have two: "0 + 2 \<le> length (render es)" using es by (simp add: seplen)
    from Cons.IH [OF oks two, of "Suc i"] obtain j c where
      jc: "j < length es" "length (render (take (Suc j) es)) = c + 2"
          "find_from sep (render es) (Suc i) = int (Suc i + c)"
      by auto
    have f: "find_from sep (drop k (render (e # es))) i = int (i + ((length e + 2 + c) - k))"
      using dr hd' jc(3) mid by simp
    have l: "length (render (take (Suc (Suc j)) (e # es))) = (length e + 2 + c) + 2"
      using jc(2) by (simp add: seplen)
    show ?thesis
      using f l jc(1) mid
      by (intro exI [of _ "Suc j"] exI [of _ "length e + 2 + c"]) simp
  next
    case after
    have dr: "drop k (render (e # es)) = drop (k - (length e + 2)) (render es)"
      using after by (simp add: seplen)
    have two: "(k - (length e + 2)) + 2 \<le> length (render es)"
      using Cons.prems(2) after by (simp add: seplen)
    from Cons.IH [OF oks two, of i] obtain j c where
      jc: "j < length es" "length (render (take (Suc j) es)) = c + 2" "k - (length e + 2) \<le> c"
          "find_from sep (drop (k - (length e + 2)) (render es)) i = int (i + (c - (k - (length e + 2))))"
      by auto
    have f: "find_from sep (drop k (render (e # es))) i = int (i + ((length e + 2 + c) - k))"
      using dr jc(3,4) after by simp
    have l: "length (render (take (Suc (Suc j)) (e # es))) = (length e + 2 + c) + 2"
      using jc(2) by (simp add: seplen)
    show ?thesis
      using f l jc(1,3) after
      by (intro exI [of _ "Suc j"] exI [of _ "length e + 2 + c"]) simp
  qed
qed

section \<open>The truncation step\<close>

lemma TRANSCRIPT_MAX_BYTES_ge2: "2 \<le> TRANSCRIPT_MAX_BYTES"
  by (simp add: TRANSCRIPT_MAX_BYTES_def)

lemma length_sep: "length sep = 2"
  by (simp add: sep_def)

lemma indexOf_window:
  assumes "TRANSCRIPT_MAX_BYTES < length s"
  shows "indexOf s pat (int (length s) - int TRANSCRIPT_MAX_BYTES) =
           find_from pat (drop (length s - TRANSCRIPT_MAX_BYTES) s) (length s - TRANSCRIPT_MAX_BYTES)"
proof -
  have "nat (max 0 (min (int (length s) - int TRANSCRIPT_MAX_BYTES) (int (length s)))) =
          length s - TRANSCRIPT_MAX_BYTES"
    using assms by arith
  then show ?thesis unfolding indexOf_def Let_def by (rule ssubst) (rule refl)
qed

lemma truncateTranscript_found:
  assumes big: "TRANSCRIPT_MAX_BYTES < length s"
    and found: "find_from sep (drop (length s - TRANSCRIPT_MAX_BYTES) s)
                  (length s - TRANSCRIPT_MAX_BYTES) = int c"
  shows "truncateTranscript s = drop (c + 2) s"
proof -
  have idx: "indexOf s sep (int (length s) - int TRANSCRIPT_MAX_BYTES) = int c"
    using indexOf_window [OF big] found by (rule trans)
  have n: "nat (max 0 (int c + 2)) = c + 2" by arith
  have gt: "int c > - 1" by simp
  show ?thesis
    unfolding truncateTranscript_def Let_def idx substring_def n
    using big gt by (simp only: if_True)
qed

lemma truncateTranscript_small:
  "length s \<le> TRANSCRIPT_MAX_BYTES \<Longrightarrow> truncateTranscript s = s"
  by (simp add: truncateTranscript_def)

lemma truncateTranscript_cut:
  assumes big: "TRANSCRIPT_MAX_BYTES < length (t @ sep)"
  shows "\<exists>c. length (t @ sep) - TRANSCRIPT_MAX_BYTES \<le> c \<and> c \<le> length t
           \<and> truncateTranscript (t @ sep) = drop (c + 2) (t @ sep)"
proof -
  define k where "k = length (t @ sep) - TRANSCRIPT_MAX_BYTES"
  have k_le: "k \<le> length t"
    using big TRANSCRIPT_MAX_BYTES_ge2 unfolding k_def length_append length_sep by arith
  have dr: "drop k (t @ sep) = drop k t @ sep" using k_le by simp
  have rng: "int k \<le> find_from sep (drop k t @ sep) k
             \<and> find_from sep (drop k t @ sep) k \<le> int k + int (length (drop k t))"
    by (rule find_from_range)
  define c where "c = nat (find_from sep (drop k t @ sep) k)"
  have rc: "find_from sep (drop k (t @ sep)) k = int c"
    unfolding dr c_def using rng by arith
  have c1: "k \<le> c" using rng unfolding c_def by arith
  have c2: "c \<le> length t" using rng k_le unfolding c_def length_drop by arith
  have "truncateTranscript (t @ sep) = drop (c + 2) (t @ sep)"
    using big rc unfolding k_def by (rule truncateTranscript_found)
  with c1 c2 show ?thesis unfolding k_def by (intro exI [of _ c] conjI)
qed

lemma truncateTranscript_length: "length (truncateTranscript (t @ sep)) \<le> TRANSCRIPT_MAX_BYTES"
proof (cases "TRANSCRIPT_MAX_BYTES < length (t @ sep)")
  case True
  from truncateTranscript_cut [OF True] obtain c where
    c: "length (t @ sep) - TRANSCRIPT_MAX_BYTES \<le> c"
       "truncateTranscript (t @ sep) = drop (c + 2) (t @ sep)"
    by blast
  have "length (drop (c + 2) (t @ sep)) \<le> TRANSCRIPT_MAX_BYTES"
    using c(1) unfolding length_drop by arith
  with c(2) show ?thesis by simp
next
  case False
  then have "truncateTranscript (t @ sep) = t @ sep" by (simp add: truncateTranscript_small)
  with False show ?thesis by simp
qed

lemma suffix_truncateTranscript: "suffix (truncateTranscript t) t"
  by (simp add: truncateTranscript_def substring_def Let_def suffix_drop)

lemma truncateTranscript_render:
  assumes ok: "\<forall>e\<in>set es. entry_ok e"
  shows "\<exists>es'. suffix es' es \<and> truncateTranscript (render es) = render es'"
proof (cases "TRANSCRIPT_MAX_BYTES < length (render es)")
  case False
  then have "truncateTranscript (render es) = render es" by (simp add: truncateTranscript_small)
  then show ?thesis by (intro exI [of _ es]) simp
next
  case True
  define k where "k = length (render es) - TRANSCRIPT_MAX_BYTES"
  have k2: "k + 2 \<le> length (render es)"
    using True TRANSCRIPT_MAX_BYTES_ge2 unfolding k_def by arith
  from find_from_entries [OF ok k2, of k] obtain j c where
    jc: "j < length es" "length (render (take (Suc j) es)) = c + 2" "k \<le> c"
        "find_from sep (drop k (render es)) k = int (k + (c - k))"
    by blast
  have "find_from sep (drop k (render es)) k = int c" using jc(3,4) by simp
  then have cut: "truncateTranscript (render es) = drop (c + 2) (render es)"
    unfolding k_def using True by (intro truncateTranscript_found)
  have split: "render es = render (take (Suc j) es) @ render (drop (Suc j) es)"
    unfolding render_simps(3) [symmetric] by simp
  have "drop (c + 2) (render es) = render (drop (Suc j) es)"
    using jc(2) by (subst split) simp
  with cut have "truncateTranscript (render es) = render (drop (Suc j) es)" by simp
  moreover have "suffix (drop (Suc j) es) es" by (rule suffix_drop)
  ultimately show ?thesis by blast
qed

lemma truncateTranscript_own_separator:
  assumes big: "TRANSCRIPT_MAX_BYTES < length (t @ sep)"
    and none: "\<forall>i. length (t @ sep) - TRANSCRIPT_MAX_BYTES \<le> i \<and> i < length t
                 \<longrightarrow> \<not> prefix sep (drop i (t @ sep))"
  shows "indexOf (t @ sep) sep (int (length (t @ sep)) - int TRANSCRIPT_MAX_BYTES) = int (length t)
         \<and> truncateTranscript (t @ sep) = []"
proof -
  define k where "k = length (t @ sep) - TRANSCRIPT_MAX_BYTES"
  have k_le: "k \<le> length t"
    using big TRANSCRIPT_MAX_BYTES_ge2 unfolding k_def length_append length_sep by arith
  have a: "length t - k \<le> length (drop k (t @ sep))" by simp
  have b: "prefix sep (drop (length t - k) (drop k (t @ sep)))" using k_le by simp
  have c: "\<forall>j<length t - k. \<not> prefix sep (drop j (drop k (t @ sep)))"
  proof (intro allI impI)
    fix j assume j: "j < length t - k"
    then have "k \<le> j + k \<and> j + k < length t" by arith
    then have "\<not> prefix sep (drop (j + k) (t @ sep))" using none unfolding k_def by blast
    then show "\<not> prefix sep (drop j (drop k (t @ sep)))" unfolding drop_drop .
  qed
  have "find_from sep (drop k (t @ sep)) k = int (k + (length t - k))"
    using a b c by (rule find_from_first)
  then have f: "find_from sep (drop k (t @ sep)) k = int (length t)" using k_le by simp
  have i: "indexOf (t @ sep) sep (int (length (t @ sep)) - int TRANSCRIPT_MAX_BYTES) = int (length t)"
    using indexOf_window [OF big] f unfolding k_def by (rule trans)
  have "truncateTranscript (t @ sep) = drop (length t + 2) (t @ sep)"
    using big f unfolding k_def by (rule truncateTranscript_found)
  then have "truncateTranscript (t @ sep) = []" by (simp add: length_sep)
  with i show ?thesis by (rule conjI)
qed

lemma no_separator_in_window:
  assumes clean: "nl \<notin> set text" and long: "TRANSCRIPT_MAX_BYTES < length text"
  shows "\<forall>i. length ((pre @ text) @ sep) - TRANSCRIPT_MAX_BYTES \<le> i \<and> i < length (pre @ text)
            \<longrightarrow> \<not> prefix sep (drop i ((pre @ text) @ sep))"
proof (intro allI impI)
  fix i
  assume i: "length ((pre @ text) @ sep) - TRANSCRIPT_MAX_BYTES \<le> i \<and> i < length (pre @ text)"
  then have lo: "length pre \<le> i" and hi: "i - length pre < length text"
    using long unfolding length_append length_sep by arith+
  have dr: "drop i ((pre @ text) @ sep) = drop (i - length pre) text @ sep"
    using lo hi by simp
  from hi obtain c cs where d: "drop (i - length pre) text = c # cs"
    by (cases "drop (i - length pre) text") simp_all
  have "c \<in> set (drop (i - length pre) text)" by (simp add: d)
  then have "c \<in> set text" by (rule in_set_dropD)
  with clean have "nl \<noteq> c" by blast
  then show "\<not> prefix sep (drop i ((pre @ text) @ sep))"
    unfolding dr d by (simp add: sep_def)
qed

lemma long_text_discarded:
  assumes clean: "nl \<notin> set text" and long: "TRANSCRIPT_MAX_BYTES < length text"
  shows "truncateTranscript (pre @ text @ sep) = []"
proof -
  have big: "TRANSCRIPT_MAX_BYTES < length ((pre @ text) @ sep)" using long by simp
  from truncateTranscript_own_separator [OF big no_separator_in_window [OF clean long]]
  show ?thesis by simp
qed

section \<open>What the operations do to each field\<close>

lemma trackMessage_transcript:
  "transcript (session (trackMessage cfg now text userName userId chat w)) =
     truncateTranscript
       ((if shouldCloseSession cfg now (session w) = None then transcript (session w) else [])
          @ userName @ '': '' @ text @ sep)"
  by (simp add: trackMessage_def closeSession_def saveSession_def newSessionState_def Let_def
      split: option.split)

lemma trackMessage_messageCount:
  "messageCount (session (trackMessage cfg now text userName userId chat w)) =
     (if shouldCloseSession cfg now (session w) = None then messageCount (session w) else 0) + 1"
  by (simp add: trackMessage_def closeSession_def saveSession_def newSessionState_def Let_def
      split: option.split)

lemma trackMessage_closeLog:
  "closeLog (trackMessage cfg now text userName userId chat w) =
     closeLog w @ (case shouldCloseSession cfg now (session w) of
                     None \<Rightarrow> [] | Some r \<Rightarrow> [(r, messageCount (session w))])"
  by (simp add: trackMessage_def closeSession_def saveSession_def newSessionState_def Let_def
      split: option.split)

lemma trackResponse_transcript:
  "transcript (session (trackResponse response w)) =
     truncateTranscript (transcript (session w) @ ''Assistant: '' @ response @ sep)"
  by (simp add: trackResponse_def saveSession_def Let_def)

lemma shouldCloseSession_limit:
  "(shouldCloseSession cfg now s = Some Limit) = (SESSION_MAX_MESSAGES cfg \<le> messageCount s)"
  by (simp add: shouldCloseSession_def Let_def)

lemma trackMessage_lastActivity:
  "lastActivity (session (trackMessage cfg now text userName userId chat w)) = now"
  by (simp add: trackMessage_def closeSession_def saveSession_def newSessionState_def Let_def
      split: option.split)

lemma trackMessage_spawned:
  "spawned (trackMessage cfg now text userName userId chat w) =
     spawned w @ (case shouldCloseSession cfg now (session w) of
                    None \<Rightarrow> []
                  | Some r \<Rightarrow>
                      if supabase cfg \<and> transcript (session w) \<noteq> []
                      then [\<lparr> task_snapshot = session w, task_count = messageCount (session w),
                              task_reason = r \<rparr>]
                      else [])"
  by (cases "shouldCloseSession cfg now (session w)")
    (simp_all add: trackMessage_def closeSession_def saveSession_def Let_def)

lemma initialWorld_spawned: "spawned (initialWorld now disk) = []"
  by (simp add: initialWorld_def)

lemma closeSession_session:
  "session (fst (closeSession cfg now reason w)) = newSessionState now"
  "saved (fst (closeSession cfg now reason w)) = Some (newSessionState now)"
  by (simp_all add: closeSession_def saveSession_def Let_def)

lemma trackResponse_session:
  "messageCount (session (trackResponse response w)) = messageCount (session w)"
  "saved (trackResponse response w) = Some (session (trackResponse response w))"
  by (simp_all add: trackResponse_def saveSession_def Let_def)

lemma trackMessage_bounded:
  assumes "1 \<le> SESSION_MAX_MESSAGES cfg"
  shows "messageCount (session (trackMessage cfg now text userName userId chat w))
           \<le> SESSION_MAX_MESSAGES cfg"
proof (cases "shouldCloseSession cfg now (session w)")
  case None
  then have "messageCount (session w) < SESSION_MAX_MESSAGES cfg"
    by (simp add: shouldCloseSession_def Let_def split: if_splits)
  with None show ?thesis by (simp add: trackMessage_messageCount)
next
  case (Some r)
  with assms show ?thesis by (simp add: trackMessage_messageCount)
qed

lemma initialWorld_fresh:
  "messageCount (session (initialWorld now None)) = 0" "closeLog (initialWorld now None) = []"
  "lastActivity (session (initialWorld now None)) = now"
  "transcript (session (initialWorld now None)) = []"
  by (simp_all add: initialWorld_def loadSession_def newSessionState_def)

lemma cfg30_simps:
  "SESSION_MAX_MESSAGES cfg30 = 30" "SESSION_IDLE_TIMEOUT_MIN cfg30 = 30" "supabase cfg30 = False"
  by (simp_all add: cfg30_def)

lemma initial_not_due: "shouldCloseSession cfg30 0 (session (initialWorld 0 None)) = None"
  by (simp add: shouldCloseSession_def initialWorld_fresh cfg30_simps)

lemma w_one_simps:
  "messageCount (session w_one) = 1" "lastActivity (session w_one) = 0" "closeLog w_one = []"
  "transcript (session w_one) = ''User: hi'' @ sep" "spawned w_one = []"
proof -
  show "messageCount (session w_one) = 1"
    by (simp add: w_one_def trackMessage_messageCount initial_not_due initialWorld_fresh)
  show "lastActivity (session w_one) = 0"
    by (simp add: w_one_def trackMessage_lastActivity)
  show "closeLog w_one = []"
    by (simp add: w_one_def trackMessage_closeLog initial_not_due initialWorld_fresh)
  show "transcript (session w_one) = ''User: hi'' @ sep"
    by (simp add: w_one_def trackMessage_transcript initial_not_due initialWorld_fresh
        truncateTranscript_small TRANSCRIPT_MAX_BYTES_def length_sep)
  show "spawned w_one = []"
    by (simp add: w_one_def trackMessage_spawned initial_not_due initialWorld_spawned)
qed

section \<open>A tracked message in two pieces\<close>

lemma closeSession_split:
  "closeSession cfg now reason w =
     closeSession_finish cfg (snd (closeSession_begin now reason w)) (fst (closeSession_begin now reason w))"
  by (simp add: closeSession_def closeSession_begin_def closeSession_finish_def saveSession_def Let_def)

lemma trackMessage_split:
  "trackMessage cfg now text userName userId chat w =
     (case shouldCloseSession cfg now (session w) of
        None \<Rightarrow> trackMessage_record now text userName userId chat w
      | Some closeReason \<Rightarrow>
          trackMessage_record now text userName userId chat
            (fst (closeSession_finish cfg (snd (closeSession_begin now closeReason w))
                    (fst (closeSession_begin now closeReason w)))))"
proof (cases "shouldCloseSession cfg now (session w)")
  case None
  then show ?thesis by (simp only: trackMessage_def trackMessage_record_def option.case Let_def)
next
  case (Some closeReason)
  then show ?thesis
    unfolding closeSession_split [symmetric]
    by (simp only: trackMessage_def trackMessage_record_def option.case Let_def)
qed

lemma trackMessage_record_messageCount:
  "messageCount (session (trackMessage_record now text userName userId chat w))
     = messageCount (session w) + 1"
  by (simp add: trackMessage_record_def saveSession_def Let_def)

lemma closeSession_begin_session:
  "session (fst (closeSession_begin now reason w)) = newSessionState now"
  by (simp add: closeSession_begin_def saveSession_def Let_def)

lemma closeSession_finish_session:
  "session (fst (closeSession_finish cfg task w)) = session w"
  by (simp add: closeSession_finish_def)

section \<open>The timeout path of an invocation\<close>

lemma callClaude_timeout:
  assumes "spawn_pid env = Some pid" and "register_ok env" and "race env = TimedOut"
  shows "signals (callClaude cc now env prompt opts w children) =
           [(CLAUDE_TIMEOUT_MS, Kill pid SIGTERM), (CLAUDE_TIMEOUT_MS + 5000, Probe pid)]
           @ (if alive_after_grace env then [(CLAUDE_TIMEOUT_MS + 5000, Kill pid SIGKILL)] else [])"
    and "world_after (callClaude cc now env prompt opts w children) = w"
    and "reply (callClaude cc now env prompt opts w children) =
           (if unregister_ok env then timeout_reply else spawn_error_reply)"
    and "children_after (callClaude cc now env prompt opts w children) =
           (if unregister_ok env then filter (\<lambda>p. p \<noteq> pid) (children @ [pid]) else children @ [pid])"
  using assms by (simp_all add: callClaude_def callClaude_inner_def Let_def)

section \<open>Runs of messages\<close>

lemma handleAll_snoc:
  "handleAll cfg (xs @ [(now, text, userName, userId, chat)]) w =
     trackMessage cfg now text userName userId chat (handleAll cfg xs w)"
  by (induction xs arbitrary: w) auto

lemma replicate_snoc: "replicate (Suc n) x = replicate n x @ [x]"
  by (simp add: replicate_append_same)

lemma handleAll_replicate:
  assumes "0 \<le> SESSION_IDLE_TIMEOUT_MIN cfg"
    and "messageCount (session w) + int n \<le> SESSION_MAX_MESSAGES cfg"
    and "\<not> (0 < messageCount (session w)
           \<and> SESSION_IDLE_TIMEOUT_MIN cfg * 60 * 1000 < now - lastActivity (session w))"
  shows "messageCount (session (handleAll cfg (replicate n (now, text, userName, userId, chat)) w))
           = messageCount (session w) + int n
       \<and> closeLog (handleAll cfg (replicate n (now, text, userName, userId, chat)) w) = closeLog w"
  using assms(2,3)
proof (induction n arbitrary: w)
  case 0
  show ?case by simp
next
  case (Suc n)
  define w' where "w' = trackMessage cfg now text userName userId chat w"
  have none: "shouldCloseSession cfg now (session w) = None"
    using Suc.prems by (simp add: shouldCloseSession_def Let_def)
  have cnt: "messageCount (session w') = messageCount (session w) + 1"
    unfolding w'_def using none by (simp add: trackMessage_messageCount)
  have log: "closeLog w' = closeLog w"
    unfolding w'_def using none by (simp add: trackMessage_closeLog)
  have act: "lastActivity (session w') = now"
    unfolding w'_def by (rule trackMessage_lastActivity)
  have a: "messageCount (session w') + int n \<le> SESSION_MAX_MESSAGES cfg"
    using cnt Suc.prems(1) by simp
  have "0 \<le> SESSION_IDLE_TIMEOUT_MIN cfg * 60 * 1000" using assms(1) by simp
  then have b: "\<not> (0 < messageCount (session w')
           \<and> SESSION_IDLE_TIMEOUT_MIN cfg * 60 * 1000 < now - lastActivity (session w'))"
    using act by simp
  from Suc.IH [OF a b] cnt log show ?case by (simp add: w'_def)
qed

lemma handleAll_replicate_lastActivity:
  "lastActivity (session (handleAll cfg (replicate (Suc n) (now, text, userName, userId, chat)) w)) = now"
  unfolding replicate_snoc handleAll_snoc by (rule trackMessage_lastActivity)

section \<open>Entries kept by the operations\<close>

lemma trackMessage_length:
  "length (transcript (session (trackMessage cfg now text userName userId chat w)))
     \<le> TRANSCRIPT_MAX_BYTES"
  using truncateTranscript_length
    [of "(if shouldCloseSession cfg now (session w) = None then transcript (session w) else [])
           @ userName @ '': '' @ text"]
  unfolding trackMessage_transcript by (simp only: append_assoc)

lemma trackResponse_length:
  "length (transcript (session (trackResponse response w))) \<le> TRANSCRIPT_MAX_BYTES"
  using truncateTranscript_length [of "transcript (session w) @ ''Assistant: '' @ response"]
  unfolding trackResponse_transcript by (simp only: append_assoc)

lemma trackMessage_entries:
  assumes inv: "\<forall>e\<in>set es. entry_ok e" "suffix es0 es" "transcript (session w) = render es0"
    and ok: "entry_ok (userName @ '': '' @ text)"
  shows "\<exists>es'. suffix es' (es @ [userName @ '': '' @ text])
           \<and> transcript (session (trackMessage cfg now text userName userId chat w)) = render es'"
proof -
  define body where "body = userName @ '': '' @ text"
  define kept where "kept = (if shouldCloseSession cfg now (session w) = None then es0 else [])"
  have "set es0 \<subseteq> set es" using inv(2) by (rule set_mono_suffix)
  then have oks: "\<forall>e\<in>set (kept @ [body]). entry_ok e"
    using inv(1) ok by (auto simp add: kept_def body_def)
  have t: "transcript (session (trackMessage cfg now text userName userId chat w)) =
             truncateTranscript (render (kept @ [body]))"
    unfolding trackMessage_transcript using inv(3) by (simp add: kept_def body_def)
  from truncateTranscript_render [OF oks] obtain es' where
    es': "suffix es' (kept @ [body])" "truncateTranscript (render (kept @ [body])) = render es'"
    by blast
  have "suffix kept es" using inv(2) by (simp add: kept_def)
  then have "suffix (kept @ [body]) (es @ [body])" by simp
  with es'(1) have "suffix es' (es @ [body])" by (rule suffix_order.trans)
  with es'(2) t show ?thesis unfolding body_def by auto
qed

lemma trackResponse_entries:
  assumes inv: "\<forall>e\<in>set es. entry_ok e" "suffix es0 es" "transcript (session w) = render es0"
    and ok: "entry_ok (''Assistant: '' @ response)"
  shows "\<exists>es'. suffix es' (es @ [''Assistant: '' @ response])
           \<and> transcript (session (trackResponse response w)) = render es'"
proof -
  define body where "body = ''Assistant: '' @ response"
  have "set es0 \<subseteq> set es" using inv(2) by (rule set_mono_suffix)
  then have oks: "\<forall>e\<in>set (es0 @ [body]). entry_ok e"
    using inv(1) ok by (auto simp add: body_def)
  have t: "transcript (session (trackResponse response w)) = truncateTranscript (render (es0 @ [body]))"
    unfolding trackResponse_transcript using inv(3) by (simp add: body_def)
  from truncateTranscript_render [OF oks] obtain es' where
    es': "suffix es' (es0 @ [body])" "truncateTranscript (render (es0 @ [body])) = render es'"
    by blast
  have "suffix (es0 @ [body]) (es @ [body])" using inv(2) by simp
  with es'(1) have "suffix es' (es @ [body])" by (rule suffix_order.trans)
  with es'(2) t show ?thesis unfolding body_def by auto
qed

lemma assignSessionId_transcript:
  "transcript (session (assignSessionId now internal session_id w)) = transcript (session w)"
  by (simp add: assignSessionId_def saveSession_def Let_def split: option.split)

lemma tracked_entries:
  assumes "tracked cfg es w" and "\<forall>e\<in>set es. entry_ok e"
  shows "\<exists>es'. suffix es' es \<and> transcript (session w) = render es'"
  using assms
proof (induction rule: tracked.induct)
  case (start now)
  show ?case by (simp add: initialWorld_fresh)
next
  case (message es w userName body now userId chat)
  from message.prems have oks: "\<forall>e\<in>set es. entry_ok e" and ok: "entry_ok (userName @ '': '' @ body)"
    by simp_all
  from message.IH [OF oks] obtain es0 where "suffix es0 es" "transcript (session w) = render es0"
    by blast
  with oks ok show ?case by (intro trackMessage_entries)
next
  case (response es w response)
  from response.prems have oks: "\<forall>e\<in>set es. entry_ok e" and ok: "entry_ok (''Assistant: '' @ response)"
    by simp_all
  from response.IH [OF oks] obtain es0 where "suffix es0 es" "transcript (session w) = render es0"
    by blast
  with oks ok show ?case by (intro trackResponse_entries)
next
  case (close es w now reason)
  have "transcript (session (fst (closeSession cfg now reason w))) = render []"
    by (simp add: closeSession_session newSessionState_def)
  then show ?case by (intro exI [of _ "[]"]) simp
next
  case (assign es w now internal session_id)
  then show ?case by (simp add: assignSessionId_transcript)
qed

lemma tracked_length:
  assumes "tracked cfg es w"
  shows "length (transcript (session w)) \<le> TRANSCRIPT_MAX_BYTES"
  using assms
proof (induction rule: tracked.induct)
  case (start now)
  show ?case by (simp add: initialWorld_fresh)
next
  case (message es w userName body now userId chat)
  show ?case by (rule trackMessage_length)
next
  case (response es w response)
  show ?case by (rule trackResponse_length)
next
  case (close es w now reason)
  show ?case by (simp add: closeSession_session newSessionState_def)
next
  case (assign es w now internal session_id)
  then show ?case by (simp add: assignSessionId_transcript)
qed

lemma long_reply_entry: "entry_ok (''Assistant: '' @ long_reply)"
proof -
  have "nl \<notin> set (''Assistant: '' @ long_reply)" by (simp add: long_reply_def nl_def)
  then have "\<not> has_blank_line (''Assistant: '' @ long_reply)" by (rule no_newline_no_blank_line)
  then show ?thesis by (simp add: entry_ok_def long_reply_def nl_def)
qed

lemma w_long_transcript: "transcript (session w_long) = ''User: hi'' @ sep"
proof -
  define u where "u = ''istant: '' @ long_reply"
  define s where "s = (''Ass'' @ u) @ sep @ ''User: hi'' @ sep"
  have lu: "length u = 51188" by (simp add: u_def long_reply_def)
  have ls: "length s = 51203" by (simp add: s_def lu length_sep)
  have big: "TRANSCRIPT_MAX_BYTES < length s" by (simp add: ls TRANSCRIPT_MAX_BYTES_def)
  have k: "length s - TRANSCRIPT_MAX_BYTES = 3" by (simp add: ls TRANSCRIPT_MAX_BYTES_def)
  have "nl \<notin> set u" by (simp add: u_def long_reply_def nl_def)
  then have nb: "\<not> has_blank_line u" by (rule no_newline_no_blank_line)
  have lst: "u \<noteq> [] \<longrightarrow> last u \<noteq> nl" by (simp add: u_def long_reply_def nl_def)
  have "find_from sep (u @ sep @ ''User: hi'' @ sep) 3 = int (3 + length u)"
    using nb lst by (rule find_from_clean)
  then have f: "find_from sep (drop (length s - TRANSCRIPT_MAX_BYTES) s)
                  (length s - TRANSCRIPT_MAX_BYTES) = int 51191"
    unfolding k by (simp add: s_def lu)
  have "truncateTranscript s = drop (51191 + 2) s" using big f by (rule truncateTranscript_found)
  also have "\<dots> = drop (Suc (Suc (Suc (length u))) + 2) s" by (simp add: lu)
  also have "\<dots> = ''User: hi'' @ sep" unfolding s_def by (simp add: length_sep)
  finally have t: "truncateTranscript s = ''User: hi'' @ sep" .
  have r: "transcript (session (trackResponse long_reply (initialWorld 0 None)))
             = ''Assistant: '' @ long_reply @ sep"
    by (simp add: trackResponse_transcript initialWorld_fresh truncateTranscript_small
        long_reply_def length_sep TRANSCRIPT_MAX_BYTES_def)
  have n: "shouldCloseSession cfg30 0 (session (trackResponse long_reply (initialWorld 0 None))) = None"
    by (simp add: shouldCloseSession_def trackResponse_session initialWorld_fresh cfg30_simps)
  have "transcript (session w_long) = truncateTranscript s"
    unfolding w_long_def trackMessage_transcript using n r by (simp add: s_def u_def)
  with t show ?thesis by simp
qed

section \<open>The transcript cap\<close>

text \<open>
  C1. After every \<open>trackMessage\<close> and every \<open>trackResponse\<close>, from any state, the
  transcript is at most \<open>TRANSCRIPT_MAX_BYTES\<close> long. If the transcript is a sequence of
  complete entries, and neither these nor the new entry contain a blank line or begin or end
  with a newline, then the transcript afterwards is again a sequence of complete entries: a
  trailing part of the old entries followed by the new one, so that the cut fell on an entry
  boundary. Hence after any run that appended such entries, the transcript is a trailing
  part of the sequence of all entries appended, each of them complete.
\<close>

theorem transcript_capped:
  "length (transcript (session (trackMessage cfg now text userName userId chat w)))
       \<le> TRANSCRIPT_MAX_BYTES
   \<and> length (transcript (session (trackResponse response w))) \<le> TRANSCRIPT_MAX_BYTES
   \<and> ((\<forall>e\<in>set es. entry_ok e) \<and> transcript (session w) = render es \<longrightarrow>
        (entry_ok (userName @ '': '' @ text) \<longrightarrow>
           (\<exists>es'. suffix es' (es @ [userName @ '': '' @ text])
                \<and> transcript (session (trackMessage cfg now text userName userId chat w)) = render es'))
        \<and> (entry_ok (''Assistant: '' @ response) \<longrightarrow>
           (\<exists>es'. suffix es' (es @ [''Assistant: '' @ response])
                \<and> transcript (session (trackResponse response w)) = render es')))
   \<and> (tracked cfg es w \<and> (\<forall>e\<in>set es. entry_ok e) \<longrightarrow>
        (\<exists>es'. suffix es' es \<and> transcript (session w) = render es'))"
proof (intro conjI impI)
  show "length (transcript (session (trackMessage cfg now text userName userId chat w)))
          \<le> TRANSCRIPT_MAX_BYTES"
    by (rule trackMessage_length)
next
  show "length (transcript (session (trackResponse response w))) \<le> TRANSCRIPT_MAX_BYTES"
    by (rule trackResponse_length)
next
  assume inv: "(\<forall>e\<in>set es. entry_ok e) \<and> transcript (session w) = render es"
    and ok: "entry_ok (userName @ '': '' @ text)"
  from inv have "\<forall>e\<in>set es. entry_ok e" "suffix es es" "transcript (session w) = render es"
    by simp_all
  then show "\<exists>es'. suffix es' (es @ [userName @ '': '' @ text])
      \<and> transcript (session (trackMessage cfg now text userName userId chat w)) = render es'"
    using ok by (rule trackMessage_entries)
next
  assume inv: "(\<forall>e\<in>set es. entry_ok e) \<and> transcript (session w) = render es"
    and ok: "entry_ok (''Assistant: '' @ response)"
  from inv have "\<forall>e\<in>set es. entry_ok e" "suffix es es" "transcript (session w) = render es"
    by simp_all
  then show "\<exists>es'. suffix es' (es @ [''Assistant: '' @ response])
      \<and> transcript (session (trackResponse response w)) = render es'"
    using ok by (rule trackResponse_entries)
next
  assume "tracked cfg es w \<and> (\<forall>e\<in>set es. entry_ok e)"
  then show "\<exists>es'. suffix es' es \<and> transcript (session w) = render es'"
    using tracked_entries by blast
qed

text \<open>
  The theorem for a reply of 51180 letters followed by the message \<open>hi\<close>: together they
  exceed the cap, and the cut removes exactly the reply; and for a reply and for a second
  message after a first message \<open>hi\<close>, where nothing is cut.
\<close>

theorem transcript_capped_witness:
  "tracked cfg30 [''Assistant: '' @ long_reply, ''User: hi''] w_long
   \<and> entry_ok (''Assistant: '' @ long_reply) \<and> entry_ok ''User: hi''
   \<and> TRANSCRIPT_MAX_BYTES < length (render [''Assistant: '' @ long_reply, ''User: hi''])
   \<and> length (transcript (session w_long)) \<le> TRANSCRIPT_MAX_BYTES
   \<and> (\<exists>es'. suffix es' [''Assistant: '' @ long_reply, ''User: hi'']
          \<and> transcript (session w_long) = render es')
   \<and> transcript (session w_long) = render [''User: hi'']
   \<and> entry_ok ''Assistant: hello''
   \<and> transcript (session w_one) = render [''User: hi'']
   \<and> (\<exists>es'. suffix es' [''User: hi'', ''Assistant: hello'']
          \<and> transcript (session (trackResponse ''hello'' w_one)) = render es')
   \<and> (\<exists>es'. suffix es' [''User: hi'', ''User: hi'']
          \<and> transcript (session (trackMessage cfg30 0 ''hi'' ''User'' ''1'' ''c'' w_one)) = render es')"
proof -
  have "tracked cfg30 [] (initialWorld 0 None)" by (rule tracked.start)
  then have "tracked cfg30 ([] @ [''Assistant: '' @ long_reply])
      (trackResponse long_reply (initialWorld 0 None))" by (rule tracked.response)
  then have "tracked cfg30 (([] @ [''Assistant: '' @ long_reply]) @ [''User'' @ '': '' @ ''hi''])
      (trackMessage cfg30 0 ''hi'' ''User'' ''1'' ''c'' (trackResponse long_reply (initialWorld 0 None)))"
    by (rule tracked.message)
  then have tr: "tracked cfg30 [''Assistant: '' @ long_reply, ''User: hi''] w_long"
    by (simp add: w_long_def)
  have ok1: "entry_ok (''Assistant: '' @ long_reply)" by (rule long_reply_entry)
  have ok2: "entry_ok ''User: hi''" by (simp add: entry_ok_def nl_def)
  have ok3: "entry_ok ''Assistant: hello''" by (simp add: entry_ok_def nl_def)
  have oks: "\<forall>e\<in>set [''Assistant: '' @ long_reply, ''User: hi'']. entry_ok e"
    using ok1 ok2 by simp
  have big: "TRANSCRIPT_MAX_BYTES < length (render [''Assistant: '' @ long_reply, ''User: hi''])"
    by (simp add: long_reply_def length_sep TRANSCRIPT_MAX_BYTES_def)
  note run = transcript_capped [of cfg30 0 "''hi''" "''User''" "''1''" "''c''"
      "trackResponse long_reply (initialWorld 0 None)" "''ok''"
      "[''Assistant: '' @ long_reply, ''User: hi'']"]
  from run have len: "length (transcript (session w_long)) \<le> TRANSCRIPT_MAX_BYTES"
    by (simp add: w_long_def)
  note whole = transcript_capped [of cfg30 0 "''hi''" "''User''" "''1''" "''c''" w_long "''ok''"
      "[''Assistant: '' @ long_reply, ''User: hi'']"]
  from whole tr oks have ex: "\<exists>es'. suffix es' [''Assistant: '' @ long_reply, ''User: hi'']
          \<and> transcript (session w_long) = render es'" by blast
  have eq: "transcript (session w_long) = render [''User: hi'']" by (simp add: w_long_transcript)
  have one: "transcript (session w_one) = render [''User: hi'']" by (simp add: w_one_simps)
  have inv: "(\<forall>e\<in>set [''User: hi'']. entry_ok e) \<and> transcript (session w_one) = render [''User: hi'']"
    using ok2 one by simp
  note step = transcript_capped [of cfg30 0 "''hi''" "''User''" "''1''" "''c''" w_one "''hello''"
      "[''User: hi'']"]
  from step inv ok3 have ex2: "\<exists>es'. suffix es' [''User: hi'', ''Assistant: hello'']
          \<and> transcript (session (trackResponse ''hello'' w_one)) = render es'" by simp
  from step inv ok2 have ex3: "\<exists>es'. suffix es' [''User: hi'', ''User: hi'']
          \<and> transcript (session (trackMessage cfg30 0 ''hi'' ''User'' ''1'' ''c'' w_one)) = render es'"
    by simp
  from tr ok1 ok2 big len ex eq ok3 one ex2 ex3 show ?thesis by (intro conjI)
qed

text \<open>
  Without the condition on the entries the cut can fall inside an entry. A reply of 51185
  letters, a blank line and \<open>b\<close>, tracked in the fresh session, leaves the transcript
  \<open>b\<close> and the separator: neither nothing nor the whole entry.
\<close>

theorem transcript_cut_inside_entry:
  "transcript (session (trackResponse (replicate 51185 (CHR ''a'') @ sep @ ''b'') (initialWorld 0 None)))
      = ''b'' @ sep
   \<and> ''b'' @ sep \<noteq> render []
   \<and> ''b'' @ sep \<noteq> render [''Assistant: '' @ replicate 51185 (CHR ''a'') @ sep @ ''b'']"
proof -
  define u where "u = ''ssistant: '' @ replicate 51185 (CHR ''a'')"
  define s where "s = (CHR ''A'' # u) @ sep @ ''b'' @ sep"
  have lu: "length u = 51195" by (simp add: u_def)
  have ls: "length s = 51201" by (simp add: s_def lu length_sep)
  have big: "TRANSCRIPT_MAX_BYTES < length s" by (simp add: ls TRANSCRIPT_MAX_BYTES_def)
  have k: "length s - TRANSCRIPT_MAX_BYTES = 1" by (simp add: ls TRANSCRIPT_MAX_BYTES_def)
  have "nl \<notin> set u" by (simp add: u_def nl_def)
  then have nb: "\<not> has_blank_line u" by (rule no_newline_no_blank_line)
  have lst: "u \<noteq> [] \<longrightarrow> last u \<noteq> nl" by (simp add: u_def nl_def)
  have "find_from sep (u @ sep @ ''b'' @ sep) 1 = int (1 + length u)"
    using nb lst by (rule find_from_clean)
  then have f: "find_from sep (drop (length s - TRANSCRIPT_MAX_BYTES) s)
                  (length s - TRANSCRIPT_MAX_BYTES) = int 51196"
    unfolding k by (simp add: s_def lu)
  have "truncateTranscript s = drop (51196 + 2) s" using big f by (rule truncateTranscript_found)
  also have "\<dots> = drop (Suc (length u) + 2) s" by (simp add: lu)
  also have "\<dots> = ''b'' @ sep" unfolding s_def by (simp add: length_sep)
  finally have t: "truncateTranscript s = ''b'' @ sep" .
  have "transcript (session (trackResponse (replicate 51185 (CHR ''a'') @ sep @ ''b'') (initialWorld 0 None)))
          = truncateTranscript s"
    by (simp add: trackResponse_transcript initialWorld_def loadSession_def newSessionState_def
        s_def u_def)
  with t have r: "transcript (session (trackResponse (replicate 51185 (CHR ''a'') @ sep @ ''b'')
      (initialWorld 0 None))) = ''b'' @ sep" by simp
  have n1: "''b'' @ sep \<noteq> render []" by simp
  have n2: "''b'' @ sep \<noteq> render [''Assistant: '' @ replicate 51185 (CHR ''a'') @ sep @ ''b'']"
    by simp
  from r n1 n2 show ?thesis by (intro conjI)
qed

section \<open>Closing at the message limit\<close>

text \<open>
  C2. \<open>shouldCloseSession\<close> answers \<open>limit\<close> exactly when \<open>messageCount\<close> has reached
  \<open>SESSION_MAX_MESSAGES\<close>. A message that arrives then is tracked after a close: the close is
  logged with the old count and the message is the first of the fresh session. A message
  that arrives below the limit, with no idle close due, is counted in the running session.
  With a limit of 30, thirty messages in a row are all counted in the first session, and it
  is the 31st that closes it and opens the next.
\<close>

theorem limit_closure:
  "(shouldCloseSession cfg now s = Some Limit) = (SESSION_MAX_MESSAGES cfg \<le> messageCount s)
   \<and> (SESSION_MAX_MESSAGES cfg \<le> messageCount (session w) \<longrightarrow>
        closeLog (trackMessage cfg now text userName userId chat w)
          = closeLog w @ [(Limit, messageCount (session w))]
        \<and> messageCount (session (trackMessage cfg now text userName userId chat w)) = 1
        \<and> transcript (session (trackMessage cfg now text userName userId chat w))
            = truncateTranscript (userName @ '': '' @ text @ sep))
   \<and> (messageCount (session w) < SESSION_MAX_MESSAGES cfg
        \<and> shouldCloseSession cfg now (session w) \<noteq> Some Idle \<longrightarrow>
        closeLog (trackMessage cfg now text userName userId chat w) = closeLog w
        \<and> messageCount (session (trackMessage cfg now text userName userId chat w))
            = messageCount (session w) + 1)
   \<and> (SESSION_MAX_MESSAGES cfg = 30 \<and> 0 \<le> SESSION_IDLE_TIMEOUT_MIN cfg \<longrightarrow>
        messageCount (session (handleAll cfg (replicate 30 (now, text, userName, userId, chat))
            (initialWorld now None))) = 30
        \<and> closeLog (handleAll cfg (replicate 30 (now, text, userName, userId, chat))
            (initialWorld now None)) = []
        \<and> closeLog (handleAll cfg (replicate 31 (now, text, userName, userId, chat))
            (initialWorld now None)) = [(Limit, 30)]
        \<and> messageCount (session (handleAll cfg (replicate 31 (now, text, userName, userId, chat))
            (initialWorld now None))) = 1)"
proof (intro conjI impI)
  show "(shouldCloseSession cfg now s = Some Limit) = (SESSION_MAX_MESSAGES cfg \<le> messageCount s)"
    by (rule shouldCloseSession_limit)
next
  assume full: "SESSION_MAX_MESSAGES cfg \<le> messageCount (session w)"
  then have r: "shouldCloseSession cfg now (session w) = Some Limit"
    by (simp add: shouldCloseSession_limit)
  show "closeLog (trackMessage cfg now text userName userId chat w)
          = closeLog w @ [(Limit, messageCount (session w))]"
    by (simp add: trackMessage_closeLog r)
  show "messageCount (session (trackMessage cfg now text userName userId chat w)) = 1"
    by (simp add: trackMessage_messageCount r)
  show "transcript (session (trackMessage cfg now text userName userId chat w))
          = truncateTranscript (userName @ '': '' @ text @ sep)"
    by (simp add: trackMessage_transcript r)
next
  assume below: "messageCount (session w) < SESSION_MAX_MESSAGES cfg
        \<and> shouldCloseSession cfg now (session w) \<noteq> Some Idle"
  then have r: "shouldCloseSession cfg now (session w) = None"
    by (auto simp add: shouldCloseSession_def Let_def split: if_splits)
  show "closeLog (trackMessage cfg now text userName userId chat w) = closeLog w"
    by (simp add: trackMessage_closeLog r)
  show "messageCount (session (trackMessage cfg now text userName userId chat w))
            = messageCount (session w) + 1"
    by (simp add: trackMessage_messageCount r)
next
  assume c: "SESSION_MAX_MESSAGES cfg = 30 \<and> 0 \<le> SESSION_IDLE_TIMEOUT_MIN cfg"
  define m where "m = (now, text, userName, userId, chat)"
  define w30 where "w30 = handleAll cfg (replicate 30 m) (initialWorld now None)"
  have a: "messageCount (session (initialWorld now None)) + int 30 \<le> SESSION_MAX_MESSAGES cfg"
    using c by (simp add: initialWorld_fresh)
  have b: "\<not> (0 < messageCount (session (initialWorld now None))
           \<and> SESSION_IDLE_TIMEOUT_MIN cfg * 60 * 1000 < now - lastActivity (session (initialWorld now None)))"
    by (simp add: initialWorld_fresh)
  from handleAll_replicate [of cfg "initialWorld now None" 30 now "text" userName userId chat, OF _ a b] c
  have w30: "messageCount (session w30) = 30" "closeLog w30 = []"
    by (simp_all add: w30_def m_def initialWorld_fresh)
  have r: "shouldCloseSession cfg now (session w30) = Some Limit"
    using w30(1) c by (simp add: shouldCloseSession_limit)
  have "replicate (Suc 30) m = replicate 30 m @ [m]" by (rule replicate_snoc)
  then have "replicate 31 m = replicate 30 m @ [m]" by simp
  then have w31: "handleAll cfg (replicate 31 m) (initialWorld now None)
      = trackMessage cfg now text userName userId chat w30"
    by (simp add: w30_def m_def handleAll_snoc)
  show "messageCount (session (handleAll cfg (replicate 30 (now, text, userName, userId, chat))
            (initialWorld now None))) = 30"
    using w30(1) by (simp add: w30_def m_def)
  show "closeLog (handleAll cfg (replicate 30 (now, text, userName, userId, chat))
            (initialWorld now None)) = []"
    using w30(2) by (simp add: w30_def m_def)
  show "closeLog (handleAll cfg (replicate 31 (now, text, userName, userId, chat))
            (initialWorld now None)) = [(Limit, 30)]"
    using w31 w30 r by (simp add: m_def trackMessage_closeLog)
  show "messageCount (session (handleAll cfg (replicate 31 (now, text, userName, userId, chat))
            (initialWorld now None))) = 1"
    using w31 r by (simp add: m_def trackMessage_messageCount)
qed

text \<open>
  The theorem at the limit of 30, for thirty messages \<open>hi\<close> and the one after, and for a
  second message in a session of one.
\<close>

theorem limit_closure_witness:
  "SESSION_MAX_MESSAGES cfg30 = 30 \<and> 0 \<le> SESSION_IDLE_TIMEOUT_MIN cfg30
   \<and> messageCount (session (handleAll cfg30 (replicate 30 hi) (initialWorld 0 None))) = 30
   \<and> closeLog (handleAll cfg30 (replicate 30 hi) (initialWorld 0 None)) = []
   \<and> closeLog (handleAll cfg30 (replicate 31 hi) (initialWorld 0 None)) = [(Limit, 30)]
   \<and> messageCount (session (handleAll cfg30 (replicate 31 hi) (initialWorld 0 None))) = 1
   \<and> closeLog (trackMessage cfg30 0 ''hi'' ''User'' ''1'' ''c''
        (handleAll cfg30 (replicate 30 hi) (initialWorld 0 None))) = [(Limit, 30)]
   \<and> transcript (session (trackMessage cfg30 0 ''hi'' ''User'' ''1'' ''c''
        (handleAll cfg30 (replicate 30 hi) (initialWorld 0 None)))) = ''User: hi'' @ sep
   \<and> messageCount (session w_one) < SESSION_MAX_MESSAGES cfg30
   \<and> shouldCloseSession cfg30 0 (session w_one) \<noteq> Some Idle
   \<and> closeLog (trackMessage cfg30 0 ''hi'' ''User'' ''1'' ''c'' w_one) = []
   \<and> messageCount (session (trackMessage cfg30 0 ''hi'' ''User'' ''1'' ''c'' w_one)) = 2"
proof -
  note a = limit_closure [of cfg30 0 "newSessionState 0"
      "handleAll cfg30 (replicate 30 hi) (initialWorld 0 None)" "''hi''" "''User''" "''1''" "''c''"]
  have c: "SESSION_MAX_MESSAGES cfg30 = 30 \<and> 0 \<le> SESSION_IDLE_TIMEOUT_MIN cfg30"
    by (simp add: cfg30_simps)
  from a c have n30: "messageCount (session (handleAll cfg30 (replicate 30 hi) (initialWorld 0 None))) = 30"
    and l30: "closeLog (handleAll cfg30 (replicate 30 hi) (initialWorld 0 None)) = []"
    and l31: "closeLog (handleAll cfg30 (replicate 31 hi) (initialWorld 0 None)) = [(Limit, 30)]"
    and n31: "messageCount (session (handleAll cfg30 (replicate 31 hi) (initialWorld 0 None))) = 1"
    unfolding hi_def by blast+
  have full: "SESSION_MAX_MESSAGES cfg30 \<le>
      messageCount (session (handleAll cfg30 (replicate 30 hi) (initialWorld 0 None)))"
    using n30 by (simp add: cfg30_simps)
  from a full have cl: "closeLog (trackMessage cfg30 0 ''hi'' ''User'' ''1'' ''c''
        (handleAll cfg30 (replicate 30 hi) (initialWorld 0 None))) = [(Limit, 30)]"
    using l30 n30 by simp
  from a full have "transcript (session (trackMessage cfg30 0 ''hi'' ''User'' ''1'' ''c''
        (handleAll cfg30 (replicate 30 hi) (initialWorld 0 None))))
      = truncateTranscript (''User'' @ '': '' @ ''hi'' @ sep)" by blast
  then have tr: "transcript (session (trackMessage cfg30 0 ''hi'' ''User'' ''1'' ''c''
        (handleAll cfg30 (replicate 30 hi) (initialWorld 0 None)))) = ''User: hi'' @ sep"
    by (simp add: truncateTranscript_small length_sep TRANSCRIPT_MAX_BYTES_def)
  have b1: "messageCount (session w_one) < SESSION_MAX_MESSAGES cfg30"
    by (simp add: w_one_simps cfg30_simps)
  have b2: "shouldCloseSession cfg30 0 (session w_one) \<noteq> Some Idle"
    by (simp add: shouldCloseSession_def w_one_simps cfg30_simps)
  from limit_closure [of cfg30 0 "newSessionState 0" w_one "''hi''" "''User''" "''1''" "''c''"] b1 b2
  have b3: "closeLog (trackMessage cfg30 0 ''hi'' ''User'' ''1'' ''c'' w_one) = []"
    and b4: "messageCount (session (trackMessage cfg30 0 ''hi'' ''User'' ''1'' ''c'' w_one)) = 2"
    by (simp_all add: w_one_simps)
  from c n30 l30 l31 n31 cl tr b1 b2 b3 b4 show ?thesis by (intro conjI) simp_all
qed

text \<open>
  The 30th message does not trigger a close: after 29 messages no close is due, and tracking
  one more gives a session of 30 messages and an empty close log.
\<close>

theorem thirtieth_message_not_closing:
  "messageCount (session (handleAll cfg30 (replicate 29 hi) (initialWorld 0 None))) = 29
   \<and> closeLog (handleAll cfg30 (replicate 29 hi) (initialWorld 0 None)) = []
   \<and> shouldCloseSession cfg30 0 (session (handleAll cfg30 (replicate 29 hi) (initialWorld 0 None))) = None
   \<and> messageCount (session (trackMessage cfg30 0 ''hi'' ''User'' ''1'' ''c''
        (handleAll cfg30 (replicate 29 hi) (initialWorld 0 None)))) = 30
   \<and> closeLog (trackMessage cfg30 0 ''hi'' ''User'' ''1'' ''c''
        (handleAll cfg30 (replicate 29 hi) (initialWorld 0 None))) = []"
proof -
  define w29 where "w29 = handleAll cfg30 (replicate 29 hi) (initialWorld 0 None)"
  have a: "messageCount (session (initialWorld 0 None)) + int 29 \<le> SESSION_MAX_MESSAGES cfg30"
    by (simp add: initialWorld_fresh cfg30_simps)
  have b: "\<not> (0 < messageCount (session (initialWorld 0 None))
           \<and> SESSION_IDLE_TIMEOUT_MIN cfg30 * 60 * 1000 < 0 - lastActivity (session (initialWorld 0 None)))"
    by (simp add: initialWorld_fresh)
  have z: "0 \<le> SESSION_IDLE_TIMEOUT_MIN cfg30" by (simp add: cfg30_simps)
  from handleAll_replicate [OF z a b, of "''hi''" "''User''" "''1''" "''c''"]
  have n: "messageCount (session w29) = 29" and l: "closeLog w29 = []"
    by (simp_all add: w29_def hi_def initialWorld_fresh)
  have "lastActivity (session (handleAll cfg30 (replicate (Suc 28) hi) (initialWorld 0 None))) = 0"
    unfolding hi_def by (rule handleAll_replicate_lastActivity)
  then have act: "lastActivity (session w29) = 0" by (simp add: w29_def)
  have none: "shouldCloseSession cfg30 0 (session w29) = None"
    using n act by (simp add: shouldCloseSession_def cfg30_simps)
  have n30: "messageCount (session (trackMessage cfg30 0 ''hi'' ''User'' ''1'' ''c'' w29)) = 30"
    using none n by (simp add: trackMessage_messageCount)
  have l30: "closeLog (trackMessage cfg30 0 ''hi'' ''User'' ''1'' ''c'' w29) = []"
    using none l by (simp add: trackMessage_closeLog)
  from n l none n30 l30 show ?thesis unfolding w29_def by (intro conjI)
qed

section \<open>The bound on the message count\<close>

text \<open>
  C3. The message count of the open session is to stay at or below
  \<open>SESSION_MAX_MESSAGES\<close>. A tracked message that runs without interruption keeps it so
  (\<open>trackMessage_bounded\<close>). But with a limit of 1 and a session of one message, the next
  message of the same user finds the limit reached, replaces the session and is suspended in
  the close; a message of a second user, admitted by the gate, is counted in the fresh
  session meanwhile; and the first handler, resumed, counts its own message without looking
  again: the open session has 2 messages.
\<close>

theorem interleaved_messages_exceed_limit:
  "SESSION_MAX_MESSAGES cfg_one = 1
   \<and> messageCount (session w_first) = 1
   \<and> shouldCloseSession cfg_one 1000 (session w_first) = Some Limit
   \<and> messageCount (session w_suspended) = 0
   \<and> fst (tryAcquire (Some ''8253689321'') (snd (tryAcquire (Some ''8493500703'') Map.empty)))
   \<and> shouldCloseSession cfg_one 1001 (session w_suspended) = None
   \<and> messageCount (session w_other) = 1
   \<and> messageCount (session w_resumed) = 2"
proof -
  have a: "SESSION_MAX_MESSAGES cfg_one = 1" by (simp add: cfg_one_def)
  have i: "shouldCloseSession cfg_one 0 (session (initialWorld 0 None)) = None"
    by (simp add: shouldCloseSession_def initialWorld_fresh cfg_one_def)
  have b: "messageCount (session w_first) = 1"
    by (simp add: w_first_def trackMessage_messageCount i initialWorld_fresh)
  have c: "shouldCloseSession cfg_one 1000 (session w_first) = Some Limit"
    by (simp add: shouldCloseSession_limit a b)
  have d: "messageCount (session w_suspended) = 0"
    by (simp add: w_suspended_def closeSession_begin_session newSessionState_def)
  have e: "fst (tryAcquire (Some ''8253689321'') (snd (tryAcquire (Some ''8493500703'') Map.empty)))"
    by (simp add: tryAcquire_def isUserBusy_def markUserBusy_def)
  have f: "shouldCloseSession cfg_one 1001 (session w_suspended) = None"
    by (simp add: shouldCloseSession_def a d)
  have g: "messageCount (session w_other) = 1"
    by (simp add: w_other_def trackMessage_messageCount f d)
  have h: "messageCount (session w_resumed) = 2"
    by (simp add: w_resumed_def trackMessage_record_messageCount closeSession_finish_session g)
  from a b c d e f g h show ?thesis by (intro conjI)
qed

section \<open>The timeout of an invocation\<close>

text \<open>
  C4. When the timer wins the race, the process is sent the termination signal at once and,
  five seconds later, probed and killed if the probe finds it (\<open>callClaude_timeout\<close>);
  the call returns a reply, never an error. The reply is to be the timeout reply. But when
  the write of children.json fails in the \<open>finally\<close>, the error replaces the timeout reply
  that the inner block returned, and the outer \<open>catch\<close> answers as it does for a failed
  spawn: for a process that hangs and stays alive, the reply is the spawn error.
\<close>

theorem timeout_reply_lost:
  "race env_hang = TimedOut
   \<and> reply (callClaude cc_default 0 env_hang ''hello'' opts_user (initialWorld 0 None) [])
       = ''Error: Could not run Claude CLI''
   \<and> reply (callClaude cc_default 0 env_hang ''hello'' opts_user (initialWorld 0 None) [])
       \<noteq> timeout_reply
   \<and> signals (callClaude cc_default 0 env_hang ''hello'' opts_user (initialWorld 0 None) [])
       = [(300000, Kill 4242 SIGTERM), (305000, Probe 4242), (305000, Kill 4242 SIGKILL)]
   \<and> children_after (callClaude cc_default 0 env_hang ''hello'' opts_user (initialWorld 0 None) [])
       = [4242]"
proof -
  have a: "spawn_pid env_hang = Some 4242" "register_ok env_hang" "race env_hang = TimedOut"
    "\<not> unregister_ok env_hang" "alive_after_grace env_hang"
    by (simp_all add: env_hang_def)
  note c = callClaude_timeout [OF a(1) a(2) a(3), of cc_default 0 "''hello''" opts_user
      "initialWorld 0 None" "[]"]
  have r: "reply (callClaude cc_default 0 env_hang ''hello'' opts_user (initialWorld 0 None) [])
       = ''Error: Could not run Claude CLI''"
    using c(3) a(4) by (simp add: spawn_error_reply_def)
  have n: "reply (callClaude cc_default 0 env_hang ''hello'' opts_user (initialWorld 0 None) [])
       \<noteq> timeout_reply"
    unfolding r by (simp add: timeout_reply_def)
  have s: "signals (callClaude cc_default 0 env_hang ''hello'' opts_user (initialWorld 0 None) [])
       = [(300000, Kill 4242 SIGTERM), (305000, Probe 4242), (305000, Kill 4242 SIGKILL)]"
    using c(1) a(5) by (simp add: CLAUDE_TIMEOUT_MS_def)
  have k: "children_after (callClaude cc_default 0 env_hang ''hello'' opts_user (initialWorld 0 None) [])
       = [4242]"
    using c(4) a(4) by simp
  from a(3) r n s k show ?thesis by (intro conjI)
qed

section \<open>Closing a session\<close>

text \<open>
  C5. After \<open>closeSession\<close> the live session is the fresh empty one: no messages, no session
  id, an empty transcript; and the call returns the message count of the session it closed.
\<close>

theorem closeSession_fresh:
  "session (fst (closeSession cfg now reason w)) = newSessionState now
   \<and> messageCount (session (fst (closeSession cfg now reason w))) = 0
   \<and> sessionId (session (fst (closeSession cfg now reason w))) = None
   \<and> transcript (session (fst (closeSession cfg now reason w))) = []
   \<and> snd (closeSession cfg now reason w) = messageCount (session w)"
  by (simp add: closeSession_def saveSession_def newSessionState_def Let_def)

section \<open>Closing an idle session\<close>

text \<open>
  C6. \<open>shouldCloseSession\<close> answers \<open>idle\<close> exactly when the message limit has not been
  reached, \<open>messageCount\<close> is positive and the time since \<open>lastActivity\<close> is strictly more
  than the idle timeout; it answers \<open>none\<close> exactly when neither the limit nor the idle
  condition holds. With a timeout of 30 minutes and a session of at least one message below
  the limit, a message 31 minutes after the last activity is tracked after an idle close,
  and one 29 minutes after it is counted in the running session.
\<close>

theorem idle_closure:
  "(shouldCloseSession cfg now s = Some Idle) =
     (messageCount s < SESSION_MAX_MESSAGES cfg \<and> 0 < messageCount s
      \<and> SESSION_IDLE_TIMEOUT_MIN cfg * 60 * 1000 < now - lastActivity s)
   \<and> (shouldCloseSession cfg now s = None) =
     (messageCount s < SESSION_MAX_MESSAGES cfg
      \<and> \<not> (0 < messageCount s \<and> SESSION_IDLE_TIMEOUT_MIN cfg * 60 * 1000 < now - lastActivity s))
   \<and> (SESSION_IDLE_TIMEOUT_MIN cfg = 30 \<and> 0 < messageCount (session w)
        \<and> messageCount (session w) < SESSION_MAX_MESSAGES cfg \<longrightarrow>
        closeLog (trackMessage cfg (lastActivity (session w) + 31 * 60 * 1000) text userName userId chat w)
          = closeLog w @ [(Idle, messageCount (session w))]
        \<and> messageCount (session
             (trackMessage cfg (lastActivity (session w) + 31 * 60 * 1000) text userName userId chat w)) = 1
        \<and> closeLog (trackMessage cfg (lastActivity (session w) + 29 * 60 * 1000) text userName userId chat w)
          = closeLog w
        \<and> messageCount (session
             (trackMessage cfg (lastActivity (session w) + 29 * 60 * 1000) text userName userId chat w))
          = messageCount (session w) + 1)"
proof (intro conjI impI)
  show "(shouldCloseSession cfg now s = Some Idle) =
     (messageCount s < SESSION_MAX_MESSAGES cfg \<and> 0 < messageCount s
      \<and> SESSION_IDLE_TIMEOUT_MIN cfg * 60 * 1000 < now - lastActivity s)"
    by (auto simp add: shouldCloseSession_def Let_def)
next
  show "(shouldCloseSession cfg now s = None) =
     (messageCount s < SESSION_MAX_MESSAGES cfg
      \<and> \<not> (0 < messageCount s \<and> SESSION_IDLE_TIMEOUT_MIN cfg * 60 * 1000 < now - lastActivity s))"
    by (auto simp add: shouldCloseSession_def Let_def)
next
  assume a: "SESSION_IDLE_TIMEOUT_MIN cfg = 30 \<and> 0 < messageCount (session w)
        \<and> messageCount (session w) < SESSION_MAX_MESSAGES cfg"
  then have late: "shouldCloseSession cfg (lastActivity (session w) + 31 * 60 * 1000) (session w) = Some Idle"
    by (simp add: shouldCloseSession_def Let_def)
  from a have early: "shouldCloseSession cfg (lastActivity (session w) + 29 * 60 * 1000) (session w) = None"
    by (simp add: shouldCloseSession_def Let_def)
  show "closeLog (trackMessage cfg (lastActivity (session w) + 31 * 60 * 1000) text userName userId chat w)
          = closeLog w @ [(Idle, messageCount (session w))]"
    using late by (simp add: trackMessage_closeLog)
  show "messageCount (session
             (trackMessage cfg (lastActivity (session w) + 31 * 60 * 1000) text userName userId chat w)) = 1"
    using late by (simp add: trackMessage_messageCount)
  show "closeLog (trackMessage cfg (lastActivity (session w) + 29 * 60 * 1000) text userName userId chat w)
          = closeLog w"
    using early by (simp add: trackMessage_closeLog)
  show "messageCount (session
             (trackMessage cfg (lastActivity (session w) + 29 * 60 * 1000) text userName userId chat w))
          = messageCount (session w) + 1"
    using early by (simp add: trackMessage_messageCount)
qed

text \<open>The theorem for a session of one message and the timeout of 30 minutes.\<close>

theorem idle_closure_witness:
  "SESSION_IDLE_TIMEOUT_MIN cfg30 = 30 \<and> 0 < messageCount (session w_one)
   \<and> messageCount (session w_one) < SESSION_MAX_MESSAGES cfg30
   \<and> closeLog (trackMessage cfg30 (31 * 60 * 1000) ''again'' ''User'' ''1'' ''c'' w_one) = [(Idle, 1)]
   \<and> messageCount (session (trackMessage cfg30 (31 * 60 * 1000) ''again'' ''User'' ''1'' ''c'' w_one)) = 1
   \<and> closeLog (trackMessage cfg30 (29 * 60 * 1000) ''again'' ''User'' ''1'' ''c'' w_one) = []
   \<and> messageCount (session (trackMessage cfg30 (29 * 60 * 1000) ''again'' ''User'' ''1'' ''c'' w_one)) = 2"
proof -
  have h: "SESSION_IDLE_TIMEOUT_MIN cfg30 = 30 \<and> 0 < messageCount (session w_one)
        \<and> messageCount (session w_one) < SESSION_MAX_MESSAGES cfg30"
    by (simp add: cfg30_simps w_one_simps)
  from idle_closure [of cfg30 0 "session w_one" w_one "''again''" "''User''" "''1''" "''c''"] h
  show ?thesis by (simp add: w_one_simps)
qed

text \<open>
  A session at the limit that has also been idle for 31 minutes is closed for the limit,
  not for idleness, although it has messages and the timeout has passed.
\<close>

theorem limit_takes_precedence_over_idle:
  "0 < messageCount (session (handleAll cfg30 (replicate 30 hi) (initialWorld 0 None)))
   \<and> SESSION_IDLE_TIMEOUT_MIN cfg30 * 60 * 1000
        < 31 * 60 * 1000 - lastActivity (session (handleAll cfg30 (replicate 30 hi) (initialWorld 0 None)))
   \<and> shouldCloseSession cfg30 (31 * 60 * 1000)
        (session (handleAll cfg30 (replicate 30 hi) (initialWorld 0 None))) = Some Limit
   \<and> shouldCloseSession cfg30 (31 * 60 * 1000)
        (session (handleAll cfg30 (replicate 30 hi) (initialWorld 0 None))) \<noteq> Some Idle"
proof -
  define w30 where "w30 = handleAll cfg30 (replicate 30 hi) (initialWorld 0 None)"
  have a: "messageCount (session (initialWorld 0 None)) + int 30 \<le> SESSION_MAX_MESSAGES cfg30"
    by (simp add: initialWorld_fresh cfg30_simps)
  have b: "\<not> (0 < messageCount (session (initialWorld 0 None))
           \<and> SESSION_IDLE_TIMEOUT_MIN cfg30 * 60 * 1000 < 0 - lastActivity (session (initialWorld 0 None)))"
    by (simp add: initialWorld_fresh)
  have z: "0 \<le> SESSION_IDLE_TIMEOUT_MIN cfg30" by (simp add: cfg30_simps)
  from handleAll_replicate [OF z a b, of "''hi''" "''User''" "''1''" "''c''"]
  have n: "messageCount (session w30) = 30"
    by (simp_all add: w30_def hi_def initialWorld_fresh)
  have "lastActivity (session (handleAll cfg30 (replicate (Suc 29) hi) (initialWorld 0 None))) = 0"
    unfolding hi_def by (rule handleAll_replicate_lastActivity)
  then have act: "lastActivity (session w30) = 0" by (simp add: w30_def)
  have l: "shouldCloseSession cfg30 (31 * 60 * 1000) (session w30) = Some Limit"
    using n by (simp add: shouldCloseSession_limit cfg30_simps)
  from n act l show ?thesis unfolding w30_def [symmetric] by (simp add: cfg30_simps)
qed

section \<open>The concurrency gate\<close>

text \<open>
  C7. For a user id that is present (a non-empty string): after one attempt to acquire the
  gate the user is busy, and a second attempt without a release fails and changes nothing;
  after a release an attempt succeeds; acquiring or releasing for one user changes nothing
  for another. For an absent user id the gate is inert: the user is never busy, every
  attempt succeeds, and neither an attempt nor a release changes the map.
\<close>

theorem gate_per_user:
  "(u \<noteq> [] \<longrightarrow>
     isUserBusy (Some u) (snd (tryAcquire (Some u) m))
     \<and> tryAcquire (Some u) (snd (tryAcquire (Some u) m)) = (False, snd (tryAcquire (Some u) m))
     \<and> fst (tryAcquire (Some u) (release (Some u) m))
     \<and> (v \<noteq> u \<longrightarrow> isUserBusy (Some v) (snd (tryAcquire (Some u) m)) = isUserBusy (Some v) m
                  \<and> isUserBusy (Some v) (release (Some u) m) = isUserBusy (Some v) m
                  \<and> fst (tryAcquire (Some v) (snd (tryAcquire (Some u) m))) = fst (tryAcquire (Some v) m)))
   \<and> \<not> isUserBusy None m
   \<and> tryAcquire None m = (True, m)
   \<and> release None m = m"
  by (auto simp add: tryAcquire_def isUserBusy_def markUserBusy_def release_def markUserFree_def)

text \<open>The theorem for the users 42 and 7, and for the absent user after 42 has acquired.\<close>

theorem gate_per_user_witness:
  "''42'' \<noteq> [] \<and> ''7'' \<noteq> ''42''
   \<and> fst (tryAcquire (Some ''42'') Map.empty)
   \<and> isUserBusy (Some ''42'') (snd (tryAcquire (Some ''42'') Map.empty))
   \<and> \<not> fst (tryAcquire (Some ''42'') (snd (tryAcquire (Some ''42'') Map.empty)))
   \<and> fst (tryAcquire (Some ''42'') (release (Some ''42'') (snd (tryAcquire (Some ''42'') Map.empty))))
   \<and> fst (tryAcquire (Some ''7'') (snd (tryAcquire (Some ''42'') Map.empty)))
   \<and> fst (tryAcquire None (snd (tryAcquire (Some ''42'') Map.empty)))"
proof -
  have a: "''42'' \<noteq> []" by simp
  have b: "''7'' \<noteq> ''42''" by simp
  have c: "fst (tryAcquire (Some ''7'') Map.empty)" "fst (tryAcquire (Some ''42'') Map.empty)"
    by (simp_all add: tryAcquire_def isUserBusy_def)
  from gate_per_user [of "''42''" Map.empty "''7''"]
       gate_per_user [of "''42''" "snd (tryAcquire (Some ''42'') Map.empty)" "''7''"] a b c
  show ?thesis by simp
qed

text \<open>
  For an absent user id the guards of the three functions make the gate inert: both of two
  attempts in a row succeed.
\<close>

theorem gate_absent_user_never_busy:
  "fst (tryAcquire None Map.empty)
   \<and> fst (tryAcquire None (snd (tryAcquire None Map.empty)))
   \<and> \<not> isUserBusy None (snd (tryAcquire None Map.empty))"
  by (simp add: tryAcquire_def isUserBusy_def markUserBusy_def)

section \<open>Tracking a reply\<close>

text \<open>
  C8. \<open>trackResponse\<close> appends \<open>Assistant: \<close>, the reply and the separator to the
  transcript and applies the cap: the result is a trailing part of the appended text, at
  most \<open>TRANSCRIPT_MAX_BYTES\<close> long, and the whole of it when that fits. Every other field
  of the session is unchanged, and so is the answer of \<open>shouldCloseSession\<close>; nothing is
  closed and nothing is spawned.
\<close>

theorem trackResponse_frame:
  "transcript (session (trackResponse response w)) =
     truncateTranscript (transcript (session w) @ ''Assistant: '' @ response @ sep)
   \<and> suffix (transcript (session (trackResponse response w)))
        (transcript (session w) @ ''Assistant: '' @ response @ sep)
   \<and> length (transcript (session (trackResponse response w))) \<le> TRANSCRIPT_MAX_BYTES
   \<and> (length (transcript (session w) @ ''Assistant: '' @ response @ sep) \<le> TRANSCRIPT_MAX_BYTES
        \<longrightarrow> transcript (session (trackResponse response w))
              = transcript (session w) @ ''Assistant: '' @ response @ sep)
   \<and> messageCount (session (trackResponse response w)) = messageCount (session w)
   \<and> lastActivity (session (trackResponse response w)) = lastActivity (session w)
   \<and> sessionId (session (trackResponse response w)) = sessionId (session w)
   \<and> chatId (session (trackResponse response w)) = chatId (session w)
   \<and> userIds (session (trackResponse response w)) = userIds (session w)
   \<and> startedAt (session (trackResponse response w)) = startedAt (session w)
   \<and> session (trackResponse response w) =
        (session w)\<lparr> transcript := transcript (session (trackResponse response w)) \<rparr>
   \<and> shouldCloseSession cfg now (session (trackResponse response w)) =
        shouldCloseSession cfg now (session w)
   \<and> closeLog (trackResponse response w) = closeLog w
   \<and> spawned (trackResponse response w) = spawned w"
proof -
  have a: "length (transcript (session (trackResponse response w))) \<le> TRANSCRIPT_MAX_BYTES"
    by (rule trackResponse_length)
  have b: "length (transcript (session w) @ ''Assistant: '' @ response @ sep) \<le> TRANSCRIPT_MAX_BYTES
        \<longrightarrow> transcript (session (trackResponse response w))
              = transcript (session w) @ ''Assistant: '' @ response @ sep"
    unfolding trackResponse_transcript by (rule impI) (rule truncateTranscript_small)
  have c: "transcript (session (trackResponse response w)) =
     truncateTranscript (transcript (session w) @ ''Assistant: '' @ response @ sep)
   \<and> suffix (transcript (session (trackResponse response w)))
        (transcript (session w) @ ''Assistant: '' @ response @ sep)"
    by (simp add: trackResponse_transcript suffix_truncateTranscript)
  have d: "messageCount (session (trackResponse response w)) = messageCount (session w)
   \<and> lastActivity (session (trackResponse response w)) = lastActivity (session w)
   \<and> sessionId (session (trackResponse response w)) = sessionId (session w)
   \<and> chatId (session (trackResponse response w)) = chatId (session w)
   \<and> userIds (session (trackResponse response w)) = userIds (session w)
   \<and> startedAt (session (trackResponse response w)) = startedAt (session w)
   \<and> session (trackResponse response w) =
        (session w)\<lparr> transcript := transcript (session (trackResponse response w)) \<rparr>
   \<and> shouldCloseSession cfg now (session (trackResponse response w)) =
        shouldCloseSession cfg now (session w)
   \<and> closeLog (trackResponse response w) = closeLog w
   \<and> spawned (trackResponse response w) = spawned w"
    by (simp add: trackResponse_def saveSession_def shouldCloseSession_def Let_def)
  from a b c d show ?thesis by blast
qed

text \<open>The theorem for the reply \<open>hello\<close> to a first message \<open>hi\<close>.\<close>

theorem trackResponse_frame_witness:
  "length (transcript (session w_one) @ ''Assistant: '' @ ''hello'' @ sep) \<le> TRANSCRIPT_MAX_BYTES
   \<and> transcript (session (trackResponse ''hello'' w_one))
       = ''User: hi'' @ sep @ ''Assistant: hello'' @ sep
   \<and> messageCount (session (trackResponse ''hello'' w_one)) = 1"
proof -
  have a: "length (transcript (session w_one) @ ''Assistant: '' @ ''hello'' @ sep)
             \<le> TRANSCRIPT_MAX_BYTES"
    by (simp add: w_one_simps length_sep TRANSCRIPT_MAX_BYTES_def)
  from trackResponse_frame [of "''hello''" w_one cfg30 0] a
  have "transcript (session (trackResponse ''hello'' w_one))
          = transcript (session w_one) @ ''Assistant: '' @ ''hello'' @ sep"
    and "messageCount (session (trackResponse ''hello'' w_one)) = messageCount (session w_one)"
    by blast+
  with a show ?thesis by (simp add: w_one_simps)
qed

section \<open>An entry longer than the cap\<close>

text \<open>
  C9. Let an entry \<open>e\<close> be appended to the transcript \<open>t\<close>, so that the result is longer
  than the cap, and let no occurrence of the separator start anywhere from the start of the
  retained window up to the end of \<open>e\<close>: no earlier separator reaches into the window,
  \<open>e\<close> has none inside, and \<open>e\<close> does not end in a newline that makes one with the
  separator after it. Then the search finds the separator that ends \<open>e\<close> itself, and the
  truncation leaves the transcript empty; so it is after \<open>trackResponse\<close> and after
  \<open>trackMessage\<close>. And there is a text longer than the cap that is gone from the transcript
  as soon as it is tracked, as a message or as a reply, whatever the state before.
\<close>

theorem entry_discarded:
  "(TRANSCRIPT_MAX_BYTES < length (t @ e @ sep)
    \<and> (\<forall>i. length (t @ e @ sep) - TRANSCRIPT_MAX_BYTES \<le> i \<and> i < length (t @ e)
            \<longrightarrow> \<not> prefix sep (drop i (t @ e @ sep)))
    \<longrightarrow> indexOf (t @ e @ sep) sep (int (length (t @ e @ sep)) - int TRANSCRIPT_MAX_BYTES)
           = int (length (t @ e))
       \<and> truncateTranscript (t @ e @ sep) = []
       \<and> (t = transcript (session w) \<and> e = ''Assistant: '' @ response
            \<longrightarrow> transcript (session (trackResponse response w)) = [])
       \<and> (t = (if shouldCloseSession cfg now (session w) = None then transcript (session w) else [])
            \<and> e = userName @ '': '' @ text
            \<longrightarrow> transcript (session (trackMessage cfg now text userName userId chat w)) = []))
   \<and> (\<exists>long. TRANSCRIPT_MAX_BYTES < length long
        \<and> (\<forall>cfg now userName userId chat w.
              transcript (session (trackMessage cfg now long userName userId chat w)) = [])
        \<and> (\<forall>w. transcript (session (trackResponse long w)) = []))"
proof (intro conjI impI)
  assume h: "TRANSCRIPT_MAX_BYTES < length (t @ e @ sep)
    \<and> (\<forall>i. length (t @ e @ sep) - TRANSCRIPT_MAX_BYTES \<le> i \<and> i < length (t @ e)
            \<longrightarrow> \<not> prefix sep (drop i (t @ e @ sep)))"
  then have big': "TRANSCRIPT_MAX_BYTES < length ((t @ e) @ sep)" by simp
  from h have none': "\<forall>i. length ((t @ e) @ sep) - TRANSCRIPT_MAX_BYTES \<le> i \<and> i < length (t @ e)
                 \<longrightarrow> \<not> prefix sep (drop i ((t @ e) @ sep))"
    by simp
  from truncateTranscript_own_separator [OF big' none']
  show cut: "indexOf (t @ e @ sep) sep (int (length (t @ e @ sep)) - int TRANSCRIPT_MAX_BYTES)
               = int (length (t @ e))"
    and empty: "truncateTranscript (t @ e @ sep) = []"
    by simp_all
  {
    assume "t = transcript (session w) \<and> e = ''Assistant: '' @ response"
    with empty show "transcript (session (trackResponse response w)) = []"
      by (auto simp add: trackResponse_transcript)
  }
  {
    assume "t = (if shouldCloseSession cfg now (session w) = None then transcript (session w) else [])
            \<and> e = userName @ '': '' @ text"
    with empty show "transcript (session (trackMessage cfg now text userName userId chat w)) = []"
      by (auto simp add: trackMessage_transcript)
  }
next
  define long where "long = replicate (Suc TRANSCRIPT_MAX_BYTES) (CHR ''a'')"
  have len: "TRANSCRIPT_MAX_BYTES < length long" by (simp add: long_def)
  have clean: "nl \<notin> set long" by (simp add: long_def nl_def)
  have m: "transcript (session (trackMessage cfg now long userName userId chat w)) = []"
    for cfg now userName userId chat w
    using long_text_discarded [OF clean len,
        of "(if shouldCloseSession cfg now (session w) = None then transcript (session w) else [])
              @ userName @ '': ''"]
    by (simp add: trackMessage_transcript)
  have r: "transcript (session (trackResponse long w)) = []" for w
    using long_text_discarded [OF clean len, of "transcript (session w) @ ''Assistant: ''"]
    by (simp add: trackResponse_transcript)
  from len m r show "\<exists>long. TRANSCRIPT_MAX_BYTES < length long
        \<and> (\<forall>cfg now userName userId chat w.
              transcript (session (trackMessage cfg now long userName userId chat w)) = [])
        \<and> (\<forall>w. transcript (session (trackResponse long w)) = [])"
    by blast
qed

text \<open>
  The first part of the theorem for a message of 51201 letters in the fresh session, and for
  the same text as the reply to a first message.
\<close>

theorem entry_discarded_witness:
  "TRANSCRIPT_MAX_BYTES < length (replicate 51201 (CHR ''a''))
   \<and> transcript (session (trackMessage cfg30 0 (replicate 51201 (CHR ''a'')) ''User'' ''1'' ''c''
        (initialWorld 0 None))) = []
   \<and> transcript (session (trackResponse (replicate 51201 (CHR ''a'')) w_one)) = []"
proof -
  define long where "long = replicate 51201 (CHR ''a'')"
  have len: "TRANSCRIPT_MAX_BYTES < length long" by (simp add: long_def TRANSCRIPT_MAX_BYTES_def)
  have clean: "nl \<notin> set long" by (simp add: long_def nl_def)
  have none_m: "\<forall>i. length ([] @ (''User: '' @ long) @ sep) - TRANSCRIPT_MAX_BYTES \<le> i
                    \<and> i < length ([] @ ''User: '' @ long)
                 \<longrightarrow> \<not> prefix sep (drop i ([] @ (''User: '' @ long) @ sep))"
    using no_separator_in_window [OF clean len, of "''User: ''"] by simp
  have big_m: "TRANSCRIPT_MAX_BYTES < length ([] @ (''User: '' @ long) @ sep)" using len by simp
  have start: "shouldCloseSession cfg30 0 (session (initialWorld 0 None)) = None"
    "transcript (session (initialWorld 0 None)) = []"
    by (simp_all add: initial_not_due initialWorld_fresh)
  from entry_discarded [of "[]" "''User: '' @ long" "initialWorld 0 None" "''''" cfg30 0 "''User''"
      long "''1''" "''c''"] big_m none_m start
  have m: "transcript (session (trackMessage cfg30 0 long ''User'' ''1'' ''c'' (initialWorld 0 None))) = []"
    by simp
  have none_r: "\<forall>i. length (transcript (session w_one) @ (''Assistant: '' @ long) @ sep)
                      - TRANSCRIPT_MAX_BYTES \<le> i
                    \<and> i < length (transcript (session w_one) @ ''Assistant: '' @ long)
                 \<longrightarrow> \<not> prefix sep (drop i (transcript (session w_one) @ (''Assistant: '' @ long) @ sep))"
    using no_separator_in_window [OF clean len, of "transcript (session w_one) @ ''Assistant: ''"]
    by simp
  have big_r: "TRANSCRIPT_MAX_BYTES < length (transcript (session w_one) @ (''Assistant: '' @ long) @ sep)"
    using len by simp
  from entry_discarded [of "transcript (session w_one)" "''Assistant: '' @ long" w_one long] big_r none_r
  have r: "transcript (session (trackResponse long w_one)) = []" by simp
  from len m r show ?thesis unfolding long_def by (intro conjI)
qed

text \<open>
  Without the condition on the end of the entry the transcript need not become empty. A
  reply of 51200 letters and one newline, tracked in the fresh session, has no blank line
  inside and no separator before it; the search finds the separator one place before the
  end of the entry, and the newline is left.
\<close>

theorem trailing_newline_not_discarded:
  "\<not> has_blank_line (''Assistant: '' @ newline_reply)
   \<and> transcript (session (initialWorld 0 None)) = []
   \<and> TRANSCRIPT_MAX_BYTES < length (''Assistant: '' @ newline_reply @ sep)
   \<and> indexOf (''Assistant: '' @ newline_reply @ sep) sep
        (int (length (''Assistant: '' @ newline_reply @ sep)) - int TRANSCRIPT_MAX_BYTES) = 51211
   \<and> length (''Assistant: '' @ newline_reply) = 51212
   \<and> transcript (session (trackResponse newline_reply (initialWorld 0 None))) = [nl]"
proof -
  define u where "u = replicate 51200 (CHR ''a'')"
  define p where "p = ''Assistant: ''"
  define s where "s = (p @ u) @ sep @ [nl]"
  have s_eq: "''Assistant: '' @ newline_reply @ sep = s"
    by (simp add: s_def p_def u_def newline_reply_def sep_def)
  have lp: "length p = 11" by (simp add: p_def)
  have lu: "length u = 51200" by (simp add: u_def)
  have ls: "length s = 51214" by (simp add: s_def lp lu length_sep)
  have big: "TRANSCRIPT_MAX_BYTES < length s" by (simp add: ls TRANSCRIPT_MAX_BYTES_def)
  have k: "length s - TRANSCRIPT_MAX_BYTES = 14" by (simp add: ls TRANSCRIPT_MAX_BYTES_def)
  have dr: "drop 14 s = drop 3 u @ sep @ [nl]" by (simp add: s_def lp lu)
  have "nl \<notin> set (drop 3 u)" by (simp add: u_def nl_def)
  then have nb: "\<not> has_blank_line (drop 3 u)" by (rule no_newline_no_blank_line)
  have lst: "drop 3 u \<noteq> [] \<longrightarrow> last (drop 3 u) \<noteq> nl" by (simp add: u_def nl_def)
  have "find_from sep (drop 3 u @ sep @ [nl]) 14 = int (14 + length (drop 3 u))"
    using nb lst by (rule find_from_clean)
  then have f: "find_from sep (drop (length s - TRANSCRIPT_MAX_BYTES) s)
                  (length s - TRANSCRIPT_MAX_BYTES) = int 51211"
    unfolding k dr by (simp add: lu)
  have idx: "indexOf s sep (int (length s) - int TRANSCRIPT_MAX_BYTES) = 51211"
    using indexOf_window [OF big, of sep] f by simp
  have "truncateTranscript s = drop (51211 + 2) s" using big f by (rule truncateTranscript_found)
  also have "\<dots> = drop (length (p @ u) + 2) s" by (simp add: lp lu)
  also have "\<dots> = [nl]" unfolding s_def by (simp add: length_sep)
  finally have t: "truncateTranscript s = [nl]" .
  have a: "\<not> has_blank_line (''Assistant: '' @ newline_reply)"
  proof -
    have "nl \<notin> set (p @ u)" by (simp add: p_def u_def nl_def)
    then have n1: "\<not> has_blank_line (p @ u)" by (rule no_newline_no_blank_line)
    have n2: "last (p @ u) \<noteq> nl" by (simp add: u_def nl_def)
    have n3: "p @ u \<noteq> []" by (simp add: p_def)
    have n4: "\<not> has_blank_line ((p @ u) @ [nl])" using n3 n1 n2 by (rule has_blank_line_snoc)
    have "''Assistant: '' @ newline_reply = (p @ u) @ [nl]"
      by (simp add: p_def u_def newline_reply_def)
    then show ?thesis using n4 by (rule ssubst)
  qed
  have b: "transcript (session (initialWorld 0 None)) = []" by (simp add: initialWorld_fresh)
  have c: "TRANSCRIPT_MAX_BYTES < length (''Assistant: '' @ newline_reply @ sep)"
    unfolding s_eq by (rule big)
  have d: "indexOf (''Assistant: '' @ newline_reply @ sep) sep
        (int (length (''Assistant: '' @ newline_reply @ sep)) - int TRANSCRIPT_MAX_BYTES) = 51211"
    unfolding s_eq by (rule idx)
  have e: "length (''Assistant: '' @ newline_reply) = 51212"
    by (simp add: newline_reply_def)
  have "transcript (session (trackResponse newline_reply (initialWorld 0 None)))
          = truncateTranscript ([] @ ''Assistant: '' @ newline_reply @ sep)"
    unfolding trackResponse_transcript b ..
  then have "transcript (session (trackResponse newline_reply (initialWorld 0 None))) = truncateTranscript s"
    unfolding append_Nil s_eq .
  with t have g: "transcript (session (trackResponse newline_reply (initialWorld 0 None))) = [nl]"
    by simp
  from a b c d e g show ?thesis by (intro conjI)
qed

section \<open>Dispatching the archive task\<close>

text \<open>
  C10. \<open>closeSession\<close> spawns the background task exactly when the store client is
  configured and the closed transcript is not empty, and then it spawns one task, holding
  the closed snapshot. Closing a session with an empty transcript spawns nothing, so that
  no insert and no summary request is sent, whatever the store and the assistant would have
  answered; so does closing without a store client.
\<close>

theorem closeSession_dispatch:
  "spawned (fst (closeSession cfg now reason w)) =
     spawned w @
       (if supabase cfg \<and> transcript (session w) \<noteq> []
        then [\<lparr> task_snapshot = session w, task_count = messageCount (session w),
                task_reason = reason \<rparr>]
        else [])
   \<and> (transcript (session w) = [] \<longrightarrow>
        spawned (fst (closeSession cfg now reason w)) = spawned w
        \<and> concat (map (runArchiveTask inserted summary)
             (drop (length (spawned w)) (spawned (fst (closeSession cfg now reason w))))) = [])
   \<and> (\<not> supabase cfg \<longrightarrow> spawned (fst (closeSession cfg now reason w)) = spawned w)"
  by (simp add: closeSession_def saveSession_def Let_def)

text \<open>
  The theorem for a manual close of the fresh session and of a session of one message, with
  and without the store client.
\<close>

theorem closeSession_dispatch_witness:
  "transcript (session (initialWorld 0 None)) = [] \<and> supabase cfg_store
   \<and> spawned (fst (closeSession cfg_store 5 Manual (initialWorld 0 None))) = []
   \<and> snd (closeSession cfg_store 5 Manual (initialWorld 0 None)) = 0
   \<and> transcript (session w_one) = ''User: hi'' @ sep
   \<and> spawned (fst (closeSession cfg_store 5 Manual w_one)) =
        [\<lparr> task_snapshot = session w_one, task_count = 1, task_reason = Manual \<rparr>]
   \<and> \<not> supabase cfg30
   \<and> spawned (fst (closeSession cfg30 5 Manual w_one)) = []"
proof -
  have s: "supabase cfg_store" by (simp add: cfg_store_def)
  have e: "spawned (initialWorld 0 None) = []" by (rule initialWorld_spawned)
  from closeSession_dispatch [of cfg_store 5 Manual "initialWorld 0 None"]
       closeSession_dispatch [of cfg_store 5 Manual w_one]
       closeSession_dispatch [of cfg30 5 Manual w_one] s e
  show ?thesis
    by (simp add: initialWorld_fresh w_one_simps cfg30_simps closeSession_def Let_def sep_def)
qed

end
